theory Spec2Isabelle
  imports Complex_Main
begin

section \<open>JavaScript values\<close>

text \<open>
  The relay (\<^verbatim>\<open>server/index.js\<close>) handles values that come out of \<^verbatim>\<open>JSON.parse\<close>: the
  inbound request body, the upstream response body and the access token object. They are
  modelled by one datatype. An object is the association list of its own properties
  (with distinct keys, as \<^verbatim>\<open>JSON.parse\<close> gives them), looked up with \<^const>\<open>map_of\<close>.
\<close>

subsection \<open>Numbers\<close>

text \<open>
  A JavaScript number is a binary64 value: a finite double, given by its value, an
  infinity or \<^verbatim>\<open>NaN\<close>. \<^verbatim>\<open>JSON.parse\<close> gives \<^verbatim>\<open>Infinity\<close> for a literal that overflows,
  such as \<^verbatim>\<open>1e400\<close>. The sign of zero is not kept: nothing the program does tells
  \<^verbatim>\<open>-0\<close> from \<^verbatim>\<open>0\<close>.
\<close>

datatype js_number = Finite rat | PosInfinity | NegInfinity | NaN

text \<open>
  Rounding to binary64, to nearest with ties to even. \<open>ilog2 n\<close> is the position of the
  leading bit of \<open>n\<close>, \<open>pow2 e\<close> is 2 to the power \<open>e\<close>, and \<open>exponent_of x\<close> is the \<open>e\<close> with
  \<open>pow2 e \<le> x < pow2 (e + 1)\<close> for a positive \<open>x\<close>. A double has 53 significant bits, so
  the spacing of the doubles around \<open>x\<close> is \<open>pow2 (e - 52)\<close>, and \<open>pow2 (- 1074)\<close> in the
  subnormal range; a rounded value that reaches \<open>pow2 1024\<close> overflows to an infinity.
\<close>

function ilog2 :: "int \<Rightarrow> int" where
  "ilog2 n = (if n < 2 then 0 else 1 + ilog2 (n div 2))"
  by pat_completeness auto
termination
  by (relation "measure nat") auto

definition pow2 :: "int \<Rightarrow> rat" where
  "pow2 e = (if 0 \<le> e then 2 ^ nat e else 1 / 2 ^ nat (- e))"

definition exponent_of :: "rat \<Rightarrow> int" where
  "exponent_of x =
     (case quotient_of x of
        (a, b) \<Rightarrow>
          (let e = ilog2 a - ilog2 b
           in if pow2 e \<le> x then e else e - 1))"

definition round_half_even :: "rat \<Rightarrow> int" where
  "round_half_even y =
     (let f = \<lfloor>y\<rfloor>; r = y - of_int f
      in if r < 1 / 2 then f else if 1 / 2 < r then f + 1 else if even f then f else f + 1)"

definition round64 :: "rat \<Rightarrow> js_number" where
  "round64 x =
     (if x = 0 then Finite 0
      else
        (let m = \<bar>x\<bar>;
             q = pow2 (max (exponent_of m) (- 1022) - 52);
             y = of_int (round_half_even (m / q)) * q
         in if 1024 \<le> exponent_of y then (if 0 < x then PosInfinity else NegInfinity)
            else Finite (if 0 < x then y else - y)))"

text \<open>\<^verbatim>\<open>x * y\<close> on numbers: the exact product, rounded once.\<close>

fun js_times :: "js_number \<Rightarrow> js_number \<Rightarrow> js_number" where
  "js_times NaN y = NaN"
| "js_times x NaN = NaN"
| "js_times (Finite a) (Finite b) = round64 (a * b)"
| "js_times (Finite a) PosInfinity =
     (if a = 0 then NaN else if 0 < a then PosInfinity else NegInfinity)"
| "js_times (Finite a) NegInfinity =
     (if a = 0 then NaN else if 0 < a then NegInfinity else PosInfinity)"
| "js_times PosInfinity (Finite b) =
     (if b = 0 then NaN else if 0 < b then PosInfinity else NegInfinity)"
| "js_times NegInfinity (Finite b) =
     (if b = 0 then NaN else if 0 < b then NegInfinity else PosInfinity)"
| "js_times PosInfinity PosInfinity = PosInfinity"
| "js_times PosInfinity NegInfinity = NegInfinity"
| "js_times NegInfinity PosInfinity = NegInfinity"
| "js_times NegInfinity NegInfinity = PosInfinity"

text \<open>
  \<^verbatim>\<open>Number::toString\<close>. The rendering of a finite double is a built-in of the engine
  and a parameter \<open>nts\<close> of the model.
\<close>

fun number_to_string :: "(rat \<Rightarrow> string) \<Rightarrow> js_number \<Rightarrow> string" where
  "number_to_string nts (Finite r) = nts r"
| "number_to_string nts PosInfinity = ''Infinity''"
| "number_to_string nts NegInfinity = ''-Infinity''"
| "number_to_string nts NaN = ''NaN''"

subsection \<open>Values\<close>

datatype jsval =
    JUndefined
  | JNull
  | JBool bool
  | JNum js_number
  | JStr string
  | JArr "jsval list"
  | JObj "(string \<times> jsval) list"

text \<open>
  A thrown value, represented by what \<^verbatim>\<open>err.toString()\<close> gives for it. The wording
  of an engine's own \<^verbatim>\<open>TypeError\<close> messages is engine specific, and is abbreviated.
\<close>

datatype js_error = JsError string

definition TypeError :: js_error where
  "TypeError = JsError ''TypeError''"

fun error_toString :: "js_error \<Rightarrow> string" where
  "error_toString (JsError s) = s"

text \<open>\<^verbatim>\<open>ToBoolean\<close>, as used by \<^verbatim>\<open>!x\<close>, \<^verbatim>\<open>x || y\<close> and \<^verbatim>\<open>if (x)\<close>.\<close>

fun truthy :: "jsval \<Rightarrow> bool" where
  "truthy JUndefined = False"
| "truthy JNull = False"
| "truthy (JBool b) = b"
| "truthy (JNum n) = (n \<noteq> Finite 0 \<and> n \<noteq> NaN)"
| "truthy (JStr s) = (s \<noteq> [])"
| "truthy (JArr xs) = True"
| "truthy (JObj fs) = True"

text \<open>\<^verbatim>\<open>a || b\<close> on values.\<close>

definition js_or :: "jsval \<Rightarrow> jsval \<Rightarrow> jsval" where
  "js_or a b = (if truthy a then a else b)"

text \<open>
  The property \<open>name\<close> of a value, for the names the program reads (\<^verbatim>\<open>prompt\<close>,
  \<^verbatim>\<open>candidates\<close>, \<^verbatim>\<open>content\<close>, \<^verbatim>\<open>parts\<close>, \<^verbatim>\<open>text\<close>, \<^verbatim>\<open>token\<close>): none of them is
  defined on a built-in prototype, so an object has it only as an own property, and a
  primitive or an array does not have it.
\<close>

fun own_prop :: "string \<Rightarrow> jsval \<Rightarrow> jsval" where
  "own_prop name (JObj fs) = (case map_of fs name of None \<Rightarrow> JUndefined | Some v \<Rightarrow> v)"
| "own_prop name v = JUndefined"

text \<open>\<^verbatim>\<open>v.name\<close> (and the destructuring \<^verbatim>\<open>const { name } = v\<close>): a \<^verbatim>\<open>TypeError\<close> on
  \<^verbatim>\<open>undefined\<close> and \<^verbatim>\<open>null\<close>.\<close>

fun get_prop :: "string \<Rightarrow> jsval \<Rightarrow> js_error + jsval" where
  "get_prop name JUndefined = Inl TypeError"
| "get_prop name JNull = Inl TypeError"
| "get_prop name v = Inr (own_prop name v)"

text \<open>\<^verbatim>\<open>v?.name\<close>: \<^verbatim>\<open>undefined\<close> on \<^verbatim>\<open>undefined\<close> and \<^verbatim>\<open>null\<close>, never an error.\<close>

fun opt_prop :: "string \<Rightarrow> jsval \<Rightarrow> jsval" where
  "opt_prop name JUndefined = JUndefined"
| "opt_prop name JNull = JUndefined"
| "opt_prop name v = own_prop name v"

text \<open>
  \<^verbatim>\<open>v?.[0]\<close>: the first element of an array, the first character of a string, the
  property \<^verbatim>\<open>"0"\<close> of an object, \<^verbatim>\<open>undefined\<close> otherwise.
\<close>

fun opt_index0 :: "jsval \<Rightarrow> jsval" where
  "opt_index0 (JArr xs) = (case xs of [] \<Rightarrow> JUndefined | x # _ \<Rightarrow> x)"
| "opt_index0 (JStr s) = (case s of [] \<Rightarrow> JUndefined | c # _ \<Rightarrow> JStr [c])"
| "opt_index0 (JObj fs) = own_prop ''0'' (JObj fs)"
| "opt_index0 v = JUndefined"

text \<open>
  \<^verbatim>\<open>ToString\<close> and \<^verbatim>\<open>Array.prototype.join\<close>. A plain object gives
  \<^verbatim>\<open>[object Object]\<close>, unless it has an own property \<^verbatim>\<open>toString\<close>: a JSON value is
  not callable, and the conversion throws a \<^verbatim>\<open>TypeError\<close>. An array is joined with
  commas. In a join, \<^verbatim>\<open>undefined\<close> and \<^verbatim>\<open>null\<close> elements give the empty string.
\<close>

fun to_string :: "(rat \<Rightarrow> string) \<Rightarrow> jsval \<Rightarrow> js_error + string"
  and join :: "(rat \<Rightarrow> string) \<Rightarrow> string \<Rightarrow> jsval list \<Rightarrow> js_error + string" where
  "to_string nts JUndefined = Inr ''undefined''"
| "to_string nts JNull = Inr ''null''"
| "to_string nts (JBool b) = Inr (if b then ''true'' else ''false'')"
| "to_string nts (JNum n) = Inr (number_to_string nts n)"
| "to_string nts (JStr s) = Inr s"
| "to_string nts (JArr xs) = join nts '','' xs"
| "to_string nts (JObj fs) =
     (if map_of fs ''toString'' = None then Inr ''[object Object]'' else Inl TypeError)"
| "join nts sep [] = Inr []"
| "join nts sep [x] =
     (if x = JUndefined \<or> x = JNull then Inr [] else to_string nts x)"
| "join nts sep (x # y # ys) =
     (case (if x = JUndefined \<or> x = JNull then Inr [] else to_string nts x) of
        Inl e \<Rightarrow> Inl e
      | Inr s \<Rightarrow>
          (case join nts sep (y # ys) of
             Inl e \<Rightarrow> Inl e
           | Inr t \<Rightarrow> Inr (s @ sep @ t)))"

text \<open>
  \<^verbatim>\<open>JSON.stringify\<close>, given by the value that the text it writes denotes (the value a
  receiver parses). A number that is not finite is written \<^verbatim>\<open>null\<close>; so is an
  \<^verbatim>\<open>undefined\<close> array element; a property whose value is \<^verbatim>\<open>undefined\<close> is left out;
  \<^verbatim>\<open>undefined\<close> itself gives no text. Everything else is written as it is.
\<close>

fun JSON_stringify :: "jsval \<Rightarrow> jsval"
  and stringify_elems :: "jsval list \<Rightarrow> jsval list"
  and stringify_props :: "(string \<times> jsval) list \<Rightarrow> (string \<times> jsval) list" where
  "JSON_stringify JUndefined = JUndefined"
| "JSON_stringify JNull = JNull"
| "JSON_stringify (JBool b) = JBool b"
| "JSON_stringify (JNum n) = (case n of Finite r \<Rightarrow> JNum (Finite r) | _ \<Rightarrow> JNull)"
| "JSON_stringify (JStr s) = JStr s"
| "JSON_stringify (JArr xs) = JArr (stringify_elems xs)"
| "JSON_stringify (JObj fs) = JObj (stringify_props fs)"
| "stringify_elems [] = []"
| "stringify_elems (x # xs) =
     (if x = JUndefined then JNull else JSON_stringify x) # stringify_elems xs"
| "stringify_props [] = []"
| "stringify_props ((k, v) # fs) =
     (if v = JUndefined then stringify_props fs
      else (k, JSON_stringify v) # stringify_props fs)"

text \<open>
  The values that \<^verbatim>\<open>JSON.stringify\<close> writes as they are: no \<^verbatim>\<open>undefined\<close> and no number
  that is not finite, at any depth.
\<close>

fun json_writable :: "jsval \<Rightarrow> bool"
  and writable_elems :: "jsval list \<Rightarrow> bool"
  and writable_props :: "(string \<times> jsval) list \<Rightarrow> bool" where
  "json_writable JUndefined = False"
| "json_writable JNull = True"
| "json_writable (JBool b) = True"
| "json_writable (JNum n) = (case n of Finite r \<Rightarrow> True | _ \<Rightarrow> False)"
| "json_writable (JStr s) = True"
| "json_writable (JArr xs) = writable_elems xs"
| "json_writable (JObj fs) = writable_props fs"
| "writable_elems [] = True"
| "writable_elems (x # xs) = (json_writable x \<and> writable_elems xs)"
| "writable_props [] = True"
| "writable_props ((k, v) # fs) = (json_writable v \<and> writable_props fs)"

section \<open>Requests, responses and the observable trace\<close>

record request =
  url :: string
  http_method :: string
  headers :: "(string \<times> string) list"
  body :: jsval

text \<open>
  The \<open>body\<close> of a request is the text \<^verbatim>\<open>JSON.stringify(body)\<close> of line 123, given by
  the value it denotes.

  A response, as far as the program reads it: its status, and what \<^verbatim>\<open>gresp.text()\<close>
  and \<^verbatim>\<open>gresp.json()\<close> settle to (either may reject).
\<close>

record response =
  status :: nat
  text_result :: "js_error + string"
  json_result :: "js_error + jsval"

text \<open>\<^verbatim>\<open>gresp.ok\<close>, which \<^verbatim>\<open>node-fetch\<close> defines as a status from 200 to 299.\<close>

definition ok :: "response \<Rightarrow> bool" where
  "ok r = (200 \<le> status r \<and> status r < 300)"

text \<open>
  What a run does to the outside world, in order: an HTTP call (\<^verbatim>\<open>fetch\<close>) with the
  given request, a wait (\<^verbatim>\<open>setTimeout\<close>) called with the given delay in milliseconds, a
  service-account token exchange.
\<close>

datatype event = Fetch request | Sleep js_number | TokenExchange

type_synonym trace = "event list"

fun fetches_of :: "trace \<Rightarrow> request list" where
  "fetches_of [] = []"
| "fetches_of (Fetch rq # tr) = rq # fetches_of tr"
| "fetches_of (_ # tr) = fetches_of tr"

fun sleeps_of :: "trace \<Rightarrow> js_number list" where
  "sleeps_of [] = []"
| "sleeps_of (Sleep d # tr) = d # sleeps_of tr"
| "sleeps_of (_ # tr) = sleeps_of tr"

fun token_exchanges :: "trace \<Rightarrow> nat" where
  "token_exchanges [] = 0"
| "token_exchanges (TokenExchange # tr) = Suc (token_exchanges tr)"
| "token_exchanges (_ # tr) = token_exchanges tr"

text \<open>
  The environment of the server. \<open>fetch env i rq\<close> is what the \<open>i\<close>-th HTTP call of the
  run (counted from 0) settles to when it sends \<open>rq\<close>: a response, or a transport error.
  \<open>getAccessToken env i\<close> is what the \<open>i\<close>-th token exchange settles to (lines 102 to
  106: \<^verbatim>\<open>new GoogleAuth\<close>, \<^verbatim>\<open>getClient\<close>, \<^verbatim>\<open>getAccessToken\<close>).
\<close>

record env =
  GOOGLE_API_KEY :: "string option"
  fetch :: "nat \<Rightarrow> request \<Rightarrow> js_error + response"
  getAccessToken :: "nat \<Rightarrow> js_error + jsval"
  numberToString :: "rat \<Rightarrow> string"

section \<open>The retry loop\<close>

definition retryable :: "nat \<Rightarrow> bool" where
  "retryable s = (s \<in> set [429, 500, 502, 503, 504])"

text \<open>
  \<^verbatim>\<open>fetchWithRetry\<close>, lines 41 to 69. \<open>retry_loop\<close> is the \<^verbatim>\<open>for\<close> loop, with the loop
  variables \<open>attempt\<close> and \<open>delay\<close>. The result is the response returned, \<open>None\<close> for the
  \<^verbatim>\<open>undefined\<close> the function returns when the loop ends, or the error thrown. \<open>retries\<close>
  is a count (the handler passes 7). \<open>next_delay\<close> is \<^verbatim>\<open>delay *= 1.8\<close>: the binary64 product
  of the delay and the double that the literal \<^verbatim>\<open>1.8\<close> denotes.
\<close>

definition next_delay :: "js_number \<Rightarrow> js_number" where
  "next_delay delay = js_times delay (round64 (9 / 5))"

function retry_loop ::
  "(nat \<Rightarrow> request \<Rightarrow> js_error + response) \<Rightarrow> request \<Rightarrow> nat \<Rightarrow> nat \<Rightarrow> js_number \<Rightarrow> trace
    \<Rightarrow> (js_error + response option) \<times> trace" where
  "retry_loop net rq retries attempt delay tr =
     (if attempt \<le> retries then
        (case net (length (fetches_of tr)) rq of
           Inr res \<Rightarrow>
             if retryable (status res) then
               if attempt = retries then (Inr (Some res), tr @ [Fetch rq])
               else retry_loop net rq retries (attempt + 1) (next_delay delay)
                      (tr @ [Fetch rq, Sleep delay])
             else (Inr (Some res), tr @ [Fetch rq])
         | Inl err \<Rightarrow>
             if attempt = retries then (Inl err, tr @ [Fetch rq])
             else retry_loop net rq retries (attempt + 1) (next_delay delay)
                    (tr @ [Fetch rq, Sleep delay]))
      else (Inr None, tr))"
  by pat_completeness auto
termination
  by (relation "measure (\<lambda>(net, rq, retries, attempt, delay, tr). Suc retries - attempt)") auto

definition fetchWithRetry ::
  "(nat \<Rightarrow> request \<Rightarrow> js_error + response) \<Rightarrow> request \<Rightarrow> nat \<Rightarrow> trace
    \<Rightarrow> (js_error + response option) \<times> trace" where
  "fetchWithRetry net rq retries tr = retry_loop net rq retries 1 (Finite 600) tr"

section \<open>The generate endpoint\<close>

definition PRIMARY_MODEL :: string where
  "PRIMARY_MODEL = ''gemini-2.5-flash''"

definition FALLBACK_MODEL :: string where
  "FALLBACK_MODEL = ''gemini-2.5-mini''"

definition modelEndpoint :: "string \<Rightarrow> string" where
  "modelEndpoint modelName =
     ''https://generativelanguage.googleapis.com/v1beta/models/'' @ modelName @ '':generateContent''"

text \<open>Lines 110 to 116: the outbound body.\<close>

definition request_body :: "jsval \<Rightarrow> jsval" where
  "request_body prompt =
     JObj [(''contents'', JArr [JObj [(''parts'', JArr [JObj [(''text'', prompt)]])]])]"

text \<open>
  Lines 101 to 107, the service-account branch: one token exchange, then the header
  \<^verbatim>\<open>Bearer ${accessToken.token || accessToken}\<close>.
\<close>

definition service_account_request :: "env \<Rightarrow> string \<Rightarrow> jsval \<Rightarrow> trace \<Rightarrow> (js_error + request) \<times> trace" where
  "service_account_request env modelName prompt tr =
     (case getAccessToken env (token_exchanges tr) of
        Inl e \<Rightarrow> (Inl e, tr @ [TokenExchange])
      | Inr accessToken \<Rightarrow>
          (case get_prop ''token'' accessToken of
             Inl e \<Rightarrow> (Inl e, tr @ [TokenExchange])
           | Inr t \<Rightarrow>
               (case to_string (numberToString env) (js_or t accessToken) of
                  Inl e \<Rightarrow> (Inl e, tr @ [TokenExchange])
                | Inr s \<Rightarrow>
                    (Inr \<lparr>url = modelEndpoint modelName, http_method = ''POST'',
                          headers = [(''Content-Type'', ''application/json''),
                                     (''Authorization'', ''Bearer '' @ s)],
                          body = JSON_stringify (request_body prompt)\<rparr>,
                     tr @ [TokenExchange]))))"

text \<open>
  Lines 94 to 124: the request for one model. A variable of \<^verbatim>\<open>process.env\<close> is a string
  or absent, and the empty string is falsy.
\<close>

definition build_request :: "env \<Rightarrow> string \<Rightarrow> jsval \<Rightarrow> trace \<Rightarrow> (js_error + request) \<times> trace" where
  "build_request env modelName prompt tr =
     (case GOOGLE_API_KEY env of
        None \<Rightarrow> service_account_request env modelName prompt tr
      | Some k \<Rightarrow>
          if k \<noteq> [] then
            (Inr \<lparr>url = modelEndpoint modelName @ ''?key='' @ k, http_method = ''POST'',
                  headers = [(''Content-Type'', ''application/json'')],
                  body = JSON_stringify (request_body prompt)\<rparr>, tr)
          else service_account_request env modelName prompt tr)"

text \<open>
  Lines 150 to 157: the extraction. \<open>candidates_parts\<close> is
  \<^verbatim>\<open>json?.candidates?.[0]?.content?.parts\<close>, \<open>content_parts\<close> is
  \<^verbatim>\<open>json?.content?.[0]?.parts\<close>, and \<open>resolve_parts\<close> is the value of \<^verbatim>\<open>parts\<close>;
  \<open>part_text\<close> is the arrow function \<^verbatim>\<open>(p) => p.text || ""\<close>; \<open>array_map\<close> is
  \<^verbatim>\<open>parts.map\<close>, which exists on arrays only. Whatever is thrown is caught, and
  \<^verbatim>\<open>extracted\<close> keeps its initial \<^verbatim>\<open>null\<close>.
\<close>

definition candidates_parts :: "jsval \<Rightarrow> jsval" where
  "candidates_parts json =
     opt_prop ''parts'' (opt_prop ''content'' (opt_index0 (opt_prop ''candidates'' json)))"

definition content_parts :: "jsval \<Rightarrow> jsval" where
  "content_parts json = opt_prop ''parts'' (opt_index0 (opt_prop ''content'' json))"

definition resolve_parts :: "jsval \<Rightarrow> jsval" where
  "resolve_parts json = js_or (candidates_parts json) (js_or (content_parts json) (JArr []))"

definition part_text :: "jsval \<Rightarrow> js_error + jsval" where
  "part_text p =
     (case get_prop ''text'' p of Inl e \<Rightarrow> Inl e | Inr t \<Rightarrow> Inr (js_or t (JStr [])))"

fun map_parts :: "jsval list \<Rightarrow> js_error + jsval list" where
  "map_parts [] = Inr []"
| "map_parts (p # ps) =
     (case part_text p of
        Inl e \<Rightarrow> Inl e
      | Inr t \<Rightarrow> (case map_parts ps of Inl e \<Rightarrow> Inl e | Inr ts \<Rightarrow> Inr (t # ts)))"

fun array_map :: "jsval \<Rightarrow> js_error + jsval list" where
  "array_map (JArr ps) = map_parts ps"
| "array_map v = Inl TypeError"

definition extract_text :: "(rat \<Rightarrow> string) \<Rightarrow> jsval \<Rightarrow> jsval" where
  "extract_text nts json =
     (case array_map (resolve_parts json) of
        Inl e \<Rightarrow> JNull
      | Inr ts \<Rightarrow> (case join nts [CHR 0x0A] ts of Inl e \<Rightarrow> JNull | Inr s \<Rightarrow> JStr s))"

text \<open>An outward response: \<^verbatim>\<open>res.status(code).json(payload)\<close>.\<close>

datatype reply = Reply nat jsval

text \<open>
  Lines 91 to 160: the loop over the models. The result is the reply sent, \<open>None\<close> when
  the loop ends without one, or the error thrown to the handler's \<^verbatim>\<open>catch\<close>.
\<close>

fun try_models :: "env \<Rightarrow> jsval \<Rightarrow> string list \<Rightarrow> trace \<Rightarrow> (js_error + reply option) \<times> trace" where
  "try_models env prompt [] tr = (Inr None, tr)"
| "try_models env prompt (modelName # rest) tr =
     (case build_request env modelName prompt tr of
        (Inl e, tr1) \<Rightarrow> (Inl e, tr1)
      | (Inr rq, tr1) \<Rightarrow>
          (case fetchWithRetry (fetch env) rq 7 tr1 of
             (Inl e, tr2) \<Rightarrow> (Inl e, tr2)
           | (Inr None, tr2) \<Rightarrow> (Inl TypeError, tr2)
           | (Inr (Some gresp), tr2) \<Rightarrow>
               if \<not> ok gresp then
                 if modelName = FALLBACK_MODEL then
                   (Inr (Some (Reply 502 (JObj
                      [(''error'', JStr ''upstream error''),
                       (''status'', JNum (Finite (of_nat (status gresp)))),
                       (''body'', JStr (case text_result gresp of Inl e \<Rightarrow> [] | Inr t \<Rightarrow> t))]))),
                    tr2)
                 else try_models env prompt rest tr2
               else
                 (case json_result gresp of
                    Inl e \<Rightarrow> (Inl e, tr2)
                  | Inr json \<Rightarrow>
                      (Inr (Some (Reply 200 (JObj
                         [(''raw'', json),
                          (''text'', extract_text (numberToString env) json)]))),
                       tr2))))"

text \<open>
  Lines 84 to 165: the handler of \<^verbatim>\<open>POST /api/generate\<close>, on the parsed request body.
\<close>

definition generate :: "env \<Rightarrow> jsval \<Rightarrow> trace \<Rightarrow> reply option \<times> trace" where
  "generate env req_body tr =
     (case (case get_prop ''prompt'' req_body of
              Inl e \<Rightarrow> (Inl e, tr)
            | Inr prompt \<Rightarrow>
                if \<not> truthy prompt then
                  (Inr (Some (Reply 400 (JObj [(''error'', JStr ''Missing prompt'')]))), tr)
                else try_models env prompt [PRIMARY_MODEL, FALLBACK_MODEL] tr) of
        (Inl err, tr') \<Rightarrow>
          (Some (Reply 500 (JObj
             [(''error'', JStr ''internal error''),
              (''details'', JStr (error_toString err))])), tr')
      | (Inr r, tr') \<Rightarrow> (r, tr'))"

section \<open>The shape of a run of the retry loop\<close>

text \<open>
  An outcome of an HTTP call after which the loop goes on (when attempts remain): a
  transport error, or a response with a retryable status.
\<close>

definition retry_worthy :: "js_error + response \<Rightarrow> bool" where
  "retry_worthy out = (case out of Inl e \<Rightarrow> True | Inr res \<Rightarrow> retryable (status res))"

text \<open>
  The events of \<open>j\<close> attempts that were retried, the first wait being \<open>d\<close>: a call,
  then a wait, the next wait being \<open>next_delay\<close> of this one.
\<close>

fun retry_steps :: "request \<Rightarrow> js_number \<Rightarrow> nat \<Rightarrow> trace" where
  "retry_steps rq d 0 = []"
| "retry_steps rq d (Suc j) = Fetch rq # Sleep d # retry_steps rq (next_delay d) j"

text \<open>
  The number of attempts that are retried, of at most \<open>k\<close>, when the next call is the
  \<open>c\<close>-th of the run.
\<close>

fun retry_count :: "(nat \<Rightarrow> request \<Rightarrow> js_error + response) \<Rightarrow> request \<Rightarrow> nat \<Rightarrow> nat \<Rightarrow> nat" where
  "retry_count net rq c 0 = 0"
| "retry_count net rq c (Suc k) =
     (if retry_worthy (net c rq) then Suc (retry_count net rq (Suc c) k) else 0)"

section \<open>The extracted text, as the claims word it\<close>

text \<open>
  The claims on the extracted text, in their own words: strings joined by a single
  newline; the text field of a part as a string, empty when the part has none or it is
  falsy; and a part that the extraction can read (not \<^verbatim>\<open>null\<close>, its text convertible to
  a string).
\<close>

fun joined :: "string list \<Rightarrow> string" where
  "joined [] = []"
| "joined [s] = s"
| "joined (s # t # ts) = s @ [CHR 0x0A] @ joined (t # ts)"

definition text_of :: "(rat \<Rightarrow> string) \<Rightarrow> jsval \<Rightarrow> string" where
  "text_of nts p =
     (if truthy (own_prop ''text'' p)
      then (case to_string nts (own_prop ''text'' p) of Inl e \<Rightarrow> [] | Inr s \<Rightarrow> s)
      else [])"

definition well_formed_part :: "(rat \<Rightarrow> string) \<Rightarrow> jsval \<Rightarrow> bool" where
  "well_formed_part nts p =
     (p \<noteq> JUndefined \<and> p \<noteq> JNull \<and>
      (case to_string nts (own_prop ''text'' p) of Inl e \<Rightarrow> False | Inr s \<Rightarrow> True))"

section \<open>Sample inputs\<close>

text \<open>
  Sample responses, requests and environments, at which the theorems below are
  instantiated. \<open>no_numbers\<close> stands in for \<^verbatim>\<open>Number::toString\<close> where no number is
  rendered.
\<close>

definition no_numbers :: "rat \<Rightarrow> string" where
  "no_numbers r = []"

definition busy :: response where
  "busy = \<lparr>status = 503, text_result = Inr ''overloaded'', json_result = Inl (JsError ''SyntaxError'')\<rparr>"

definition not_found :: response where
  "not_found = \<lparr>status = 404, text_result = Inr ''no such model'', json_result = Inl (JsError ''SyntaxError'')\<rparr>"

definition ping :: request where
  "ping = \<lparr>url = modelEndpoint PRIMARY_MODEL, http_method = ''POST'', headers = [], body = request_body (JStr ''hi'')\<rparr>"

definition flaky :: "nat \<Rightarrow> request \<Rightarrow> js_error + response" where
  "flaky i rq = (if i < 2 then Inl (JsError ''ECONNRESET'') else Inr busy)"

definition unreachable :: "nat \<Rightarrow> request \<Rightarrow> js_error + response" where
  "unreachable i rq = Inl (JsError ''ECONNRESET'')"

definition busy_then_missing :: "nat \<Rightarrow> request \<Rightarrow> js_error + response" where
  "busy_then_missing i rq = Inr (if i < 7 then busy else not_found)"

definition key_env :: "(nat \<Rightarrow> request \<Rightarrow> js_error + response) \<Rightarrow> env" where
  "key_env net = \<lparr>GOOGLE_API_KEY = Some ''k'', fetch = net,
     getAccessToken = (\<lambda>i. Inl (JsError ''no credentials'')), numberToString = no_numbers\<rparr>"

definition hi_request :: "string \<Rightarrow> request" where
  "hi_request modelName =
     \<lparr>url = modelEndpoint modelName @ ''?key=k'', http_method = ''POST'',
      headers = [(''Content-Type'', ''application/json'')],
      body = request_body (JStr ''hi'')\<rparr>"

definition hi_body :: jsval where
  "hi_body = JObj [(''prompt'', JStr ''hi'')]"


definition candidates_body :: "jsval \<Rightarrow> jsval" where
  "candidates_body parts =
     JObj [(''candidates'', JArr [JObj [(''content'', JObj [(''parts'', parts)])]])]"



text \<open>
  An environment with no API key, whose token exchanges give a different token each
  time.
\<close>

definition account_env :: "(nat \<Rightarrow> request \<Rightarrow> js_error + response) \<Rightarrow> env" where
  "account_env net = \<lparr>GOOGLE_API_KEY = None, fetch = net,
     getAccessToken = (\<lambda>i. Inr (JObj [(''token'', JStr (if i = 0 then ''t0'' else ''t1''))])),
     numberToString = no_numbers\<rparr>"

definition both_env :: "(nat \<Rightarrow> request \<Rightarrow> js_error + response) \<Rightarrow> env" where
  "both_env net = (account_env net)\<lparr>GOOGLE_API_KEY := Some ''k''\<rparr>"

text \<open>An environment with neither an API key nor a working token exchange.\<close>

definition bare_env :: "(nat \<Rightarrow> request \<Rightarrow> js_error + response) \<Rightarrow> env" where
  "bare_env net = (key_env net)\<lparr>GOOGLE_API_KEY := None\<rparr>"

definition bearer_request :: "string \<Rightarrow> string \<Rightarrow> request" where
  "bearer_request modelName tok =
     \<lparr>url = modelEndpoint modelName, http_method = ''POST'',
      headers = [(''Content-Type'', ''application/json''), (''Authorization'', ''Bearer '' @ tok)],
      body = request_body (JStr ''hi'')\<rparr>"

section \<open>Lemmas on traces and on the retry loop\<close>

declare retry_loop.simps [simp del]

lemma hi_wire: "JSON_stringify (request_body (JStr ''hi'')) = request_body (JStr ''hi'')"
  by (simp add: request_body_def)

lemma fetches_of_append [simp]: "fetches_of (xs @ ys) = fetches_of xs @ fetches_of ys"
  by (induction xs rule: fetches_of.induct) auto

lemma sleeps_of_append [simp]: "sleeps_of (xs @ ys) = sleeps_of xs @ sleeps_of ys"
  by (induction xs rule: sleeps_of.induct) auto

lemma token_exchanges_append [simp]:
  "token_exchanges (xs @ ys) = token_exchanges xs + token_exchanges ys"
  by (induction xs rule: token_exchanges.induct) auto

lemma fetches_of_retry_steps [simp]: "fetches_of (retry_steps rq d j) = replicate j rq"
  by (induction j arbitrary: d) auto

lemma token_exchanges_retry_steps [simp]: "token_exchanges (retry_steps rq d j) = 0"
  by (induction j arbitrary: d) auto

lemma sleeps_of_retry_steps:
  "sleeps_of (retry_steps rq d j) = map (\<lambda>i. (next_delay ^^ i) d) [0..<j]"
proof (induction j arbitrary: d)
  case 0
  show ?case by simp
next
  case (Suc j)
  have "map (\<lambda>i. (next_delay ^^ i) d) [0..<Suc j] =
      d # map (\<lambda>i. (next_delay ^^ i) (next_delay d)) [0..<j]"
    by (simp add: upt_conv_Cons map_Suc_upt [symmetric] funpow_swap1 del: upt_Suc)
  with Suc show ?case by simp
qed

lemma retry_loop_retry:
  assumes "attempt < retries" and "retry_worthy (net (length (fetches_of tr)) rq)"
  shows "retry_loop net rq retries attempt delay tr =
         retry_loop net rq retries (Suc attempt) (next_delay delay) (tr @ [Fetch rq, Sleep delay])"
  using assms by (subst retry_loop.simps) (auto simp: retry_worthy_def split: sum.splits)

lemma retry_loop_steps:
  "attempt + j \<le> retries \<Longrightarrow>
   \<forall>i<j. retry_worthy (net (length (fetches_of tr) + i) rq) \<Longrightarrow>
   retry_loop net rq retries attempt delay tr =
   retry_loop net rq retries (attempt + j) ((next_delay ^^ j) delay) (tr @ retry_steps rq delay j)"
proof (induction j arbitrary: attempt delay tr)
  case 0
  show ?case by simp
next
  case (Suc j)
  from Suc.prems have lt: "attempt < retries" by simp
  from Suc.prems have rw: "retry_worthy (net (length (fetches_of tr)) rq)" by force
  have later: "\<forall>i<j. retry_worthy (net (length (fetches_of (tr @ [Fetch rq, Sleep delay])) + i) rq)"
    using Suc.prems(2) by (auto dest: spec [of _ "Suc i" for i])
  have "retry_loop net rq retries attempt delay tr =
        retry_loop net rq retries (Suc attempt) (next_delay delay) (tr @ [Fetch rq, Sleep delay])"
    using lt rw by (rule retry_loop_retry)
  also have "\<dots> = retry_loop net rq retries (Suc attempt + j) ((next_delay ^^ j) (next_delay delay))
         ((tr @ [Fetch rq, Sleep delay]) @ retry_steps rq (next_delay delay) j)"
    using Suc.prems(1) by (intro Suc.IH later) simp
  finally show ?case by (simp add: funpow_swap1)
qed

lemma retry_loop_final:
  "retry_loop net rq retries retries delay tr =
     (case net (length (fetches_of tr)) rq of
        Inl e \<Rightarrow> Inl e | Inr res \<Rightarrow> Inr (Some res), tr @ [Fetch rq])"
  by (subst retry_loop.simps) (auto split: sum.splits)

lemma retry_loop_return:
  assumes "attempt \<le> retries" and "net (length (fetches_of tr)) rq = Inr res"
    and "\<not> retryable (status res)"
  shows "retry_loop net rq retries attempt delay tr = (Inr (Some res), tr @ [Fetch rq])"
  using assms by (subst retry_loop.simps) simp

lemma retry_loop_none:
  "retries < attempt \<Longrightarrow> retry_loop net rq retries attempt delay tr = (Inr None, tr)"
  by (subst retry_loop.simps) simp

lemma retry_count_le: "retry_count net rq c k \<le> k"
  by (induction k arbitrary: c) auto

lemma retry_count_worthy: "i < retry_count net rq c k \<Longrightarrow> retry_worthy (net (c + i) rq)"
proof (induction k arbitrary: c i)
  case 0
  then show ?case by simp
next
  case (Suc k)
  show ?case
  proof (cases i)
    case 0
    with Suc.prems show ?thesis by (simp split: if_splits)
  next
    case (Suc i')
    with Suc.prems have "i' < retry_count net rq (Suc c) k" by (simp split: if_splits)
    then have "retry_worthy (net (Suc c + i') rq)" by (rule Suc.IH)
    with Suc show ?thesis by simp
  qed
qed

lemma retry_count_stop:
  "retry_count net rq c k < k \<Longrightarrow> \<not> retry_worthy (net (c + retry_count net rq c k) rq)"
proof (induction k arbitrary: c)
  case 0
  then show ?case by simp
next
  case (Suc k)
  then show ?case using Suc.IH [of "Suc c"] by (auto split: if_splits)
qed

lemma retry_count_full:
  "(retry_count net rq c k = k) = (\<forall>i<k. retry_worthy (net (c + i) rq))"
proof
  assume "retry_count net rq c k = k"
  then show "\<forall>i<k. retry_worthy (net (c + i) rq)"
    using retry_count_worthy [of _ net rq c k] by simp
next
  assume "\<forall>i<k. retry_worthy (net (c + i) rq)"
  then show "retry_count net rq c k = k"
  proof (induction k arbitrary: c)
    case 0
    show ?case by simp
  next
    case (Suc k)
    from Suc.prems have "retry_worthy (net c rq)" by force
    moreover have "\<forall>i<k. retry_worthy (net (Suc c + i) rq)"
      using Suc.prems by (auto dest: spec [of _ "Suc i" for i])
    ultimately show ?case using Suc.IH by simp
  qed
qed

lemma retry_loop_run:
  assumes le: "attempt \<le> retries"
  shows "retry_loop net rq retries attempt delay tr =
     (case net (length (fetches_of tr) + retry_count net rq (length (fetches_of tr)) (retries - attempt)) rq of
        Inl e \<Rightarrow> Inl e
      | Inr res \<Rightarrow> Inr (Some res),
      tr @ retry_steps rq delay (retry_count net rq (length (fetches_of tr)) (retries - attempt)) @ [Fetch rq])"
proof -
  define c where "c = length (fetches_of tr)"
  define j where "j = retry_count net rq c (retries - attempt)"
  have j_le: "attempt + j \<le> retries"
    using le retry_count_le [of net rq c "retries - attempt"] by (simp add: j_def)
  have worthy: "\<forall>i<j. retry_worthy (net (length (fetches_of tr) + i) rq)"
    using retry_count_worthy [of _ net rq c "retries - attempt"] by (simp add: j_def c_def)
  have steps: "retry_loop net rq retries attempt delay tr =
      retry_loop net rq retries (attempt + j) ((next_delay ^^ j) delay) (tr @ retry_steps rq delay j)"
    using j_le worthy by (rule retry_loop_steps)
  have len: "length (fetches_of (tr @ retry_steps rq delay j)) = c + j"
    by (simp add: c_def)
  have "retry_loop net rq retries (attempt + j) ((next_delay ^^ j) delay) (tr @ retry_steps rq delay j) =
     (case net (c + j) rq of Inl e \<Rightarrow> Inl e | Inr res \<Rightarrow> Inr (Some res),
      (tr @ retry_steps rq delay j) @ [Fetch rq])"
  proof (cases "attempt + j = retries")
    case True
    then show ?thesis using retry_loop_final [of net rq retries "(next_delay ^^ j) delay" "tr @ retry_steps rq delay j"]
      by (simp only: len)
  next
    case False
    with j_le have "j < retries - attempt" by simp
    then have "\<not> retry_worthy (net (c + j) rq)"
      using retry_count_stop [of net rq c "retries - attempt"] by (simp add: j_def)
    then obtain res where res: "net (c + j) rq = Inr res" "\<not> retryable (status res)"
      by (auto simp: retry_worthy_def split: sum.splits)
    have "retry_loop net rq retries (attempt + j) ((next_delay ^^ j) delay) (tr @ retry_steps rq delay j) =
       (Inr (Some res), (tr @ retry_steps rq delay j) @ [Fetch rq])"
      using j_le res by (intro retry_loop_return) (simp_all add: c_def)
    with res show ?thesis by simp
  qed
  with steps show ?thesis by (simp add: j_def c_def)
qed

text \<open>
  The first values of \<^verbatim>\<open>delay\<close>: 600, 1080, 1944, 3499.2000000000003, 6298.56 and
  11337.408000000001, the last three given by the exact values of these doubles.
\<close>

lemma next_delay_600: "next_delay (Finite 600) = Finite 1080"
  by code_simp

lemma next_delay_1080: "next_delay (Finite 1080) = Finite 1944"
  by code_simp

lemma next_delay_1944: "next_delay (Finite 1944) = Finite (7694822175827559 / 2199023255552)"
  by code_simp

lemma next_delay_3499:
  "next_delay (Finite (7694822175827559 / 2199023255552)) = Finite (6925339958244803 / 1099511627776)"
  by code_simp

lemma next_delay_6298:
  "next_delay (Finite (6925339958244803 / 1099511627776)) = Finite (6232805962420323 / 549755813888)"
  by code_simp

lemma next_delay_11337:
  "next_delay (Finite (6232805962420323 / 549755813888)) = Finite (5609525366178291 / 274877906944)"
  by code_simp

lemmas next_delays =
  next_delay_600 next_delay_1080 next_delay_1944 next_delay_3499 next_delay_6298

lemma first_delays:
  "map (\<lambda>i. (next_delay ^^ i) (Finite 600)) [0..<6] =
     [Finite 600, Finite 1080, Finite 1944, Finite (7694822175827559 / 2199023255552),
      Finite (6925339958244803 / 1099511627776), Finite (6232805962420323 / 549755813888)]"
  by (simp add: upt_rec funpow_swap1 eval_nat_numeral next_delays)

lemma fetchWithRetry_zero: "fetchWithRetry net rq 0 tr = (Inr None, tr)"
  by (simp add: fetchWithRetry_def retry_loop_none)

lemma fetchWithRetry_run:
  assumes "0 < retries"
  shows "fetchWithRetry net rq retries tr =
     (case net (length (fetches_of tr) + retry_count net rq (length (fetches_of tr)) (retries - 1)) rq of
        Inl e \<Rightarrow> Inl e
      | Inr res \<Rightarrow> Inr (Some res),
      tr @ retry_steps rq (Finite 600) (retry_count net rq (length (fetches_of tr)) (retries - 1)) @ [Fetch rq])"
  unfolding fetchWithRetry_def using assms by (intro retry_loop_run) simp

lemma fetchWithRetry_trace:
  "snd (fetchWithRetry net rq retries tr) =
     (if retries = 0 then tr
      else tr @ retry_steps rq (Finite 600) (retry_count net rq (length (fetches_of tr)) (retries - 1)) @ [Fetch rq])"
  by (simp add: fetchWithRetry_zero fetchWithRetry_run)

lemma fetchWithRetry_error_count:
  assumes "fst (fetchWithRetry net rq (Suc n) tr) = Inl e"
  shows "retry_count net rq (length (fetches_of tr)) n = n"
proof -
  define c where "c = length (fetches_of tr)"
  define j where "j = retry_count net rq c n"
  from assms have "net (c + j) rq = Inl e"
    by (simp add: fetchWithRetry_run c_def j_def split: sum.splits)
  then have "retry_worthy (net (c + j) rq)" by (simp add: retry_worthy_def)
  then have "\<not> j < n"
    using retry_count_stop [of net rq c n] by (auto simp: j_def)
  with retry_count_le [of net rq c n] show ?thesis by (simp add: j_def c_def)
qed

lemma fetchWithRetry_error_trace:
  assumes "fst (fetchWithRetry net rq (Suc n) tr) = Inl e"
  shows "snd (fetchWithRetry net rq (Suc n) tr) = tr @ retry_steps rq (Finite 600) n @ [Fetch rq]"
  using fetchWithRetry_error_count [OF assms] by (simp add: fetchWithRetry_trace)

lemma fetchWithRetry_7:
  assumes "fetchWithRetry net rq 7 tr = (r, tr')"
  obtains j where "tr' = tr @ retry_steps rq (Finite 600) j @ [Fetch rq]" and "r \<noteq> Inr None"
proof -
  have "0 < (7::nat)" by simp
  from fetchWithRetry_run [OF this, of net rq tr] assms
  have "tr' = tr @ retry_steps rq (Finite 600) (retry_count net rq (length (fetches_of tr)) (7 - 1)) @ [Fetch rq]"
    and "r \<noteq> Inr None"
    by (auto split: sum.splits)
  then show thesis by (rule that)
qed

lemma fetchWithRetry_7_exhausted:
  assumes "\<forall>i<6. retry_worthy (net (length (fetches_of tr) + i) rq)"
  shows "fetchWithRetry net rq 7 tr =
     (case net (length (fetches_of tr) + 6) rq of Inl e \<Rightarrow> Inl e | Inr res \<Rightarrow> Inr (Some res),
      tr @ retry_steps rq (Finite 600) 6 @ [Fetch rq])"
proof -
  from assms have "retry_count net rq (length (fetches_of tr)) 6 = 6"
    by (simp add: retry_count_full)
  then show ?thesis
    using fetchWithRetry_run [of 7 net rq tr] by simp
qed

lemma fetchWithRetry_first_final:
  assumes "0 < retries" and "\<not> retry_worthy (net (length (fetches_of tr)) rq)"
  shows "fetchWithRetry net rq retries tr =
     (case net (length (fetches_of tr)) rq of Inl e \<Rightarrow> Inl e | Inr res \<Rightarrow> Inr (Some res),
      tr @ [Fetch rq])"
proof -
  from assms(2) have "retry_count net rq (length (fetches_of tr)) (retries - 1) = 0"
    by (cases "retries - 1") simp_all
  then show ?thesis
    using fetchWithRetry_run [OF assms(1), of net rq tr] by simp
qed

lemma models_differ: "PRIMARY_MODEL \<noteq> FALLBACK_MODEL"
  by (simp add: PRIMARY_MODEL_def FALLBACK_MODEL_def)

section \<open>The bounded-retry send\<close>

text \<open>
  Claim C1. When every attempt of \<^verbatim>\<open>fetchWithRetry\<close> gets a response with a retryable
  status (429, 500, 502, 503, 504), exactly \<open>retries\<close> HTTP calls are issued, the waits
  between them (one before each retry) start at 600 ms and each is the one before it
  times 1.8, the product being the source's \<^verbatim>\<open>delay *= 1.8\<close> on doubles, and no wait
  follows the last call. With seven attempts the waits are 600, 1080, 1944,
  3499.2000000000003, 6298.56 and 11337.408000000001 ms. When the first response has a status that is not
  retryable, exactly one call is issued and that response is returned at once.
\<close>

theorem fetchWithRetry_calls_and_delays:
  "((\<forall>i<retries. \<exists>res. net (length (fetches_of tr) + i) rq = Inr res \<and> retryable (status res)) \<longrightarrow>
      fetches_of (snd (fetchWithRetry net rq retries tr)) = fetches_of tr @ replicate retries rq \<and>
      sleeps_of (snd (fetchWithRetry net rq retries tr)) =
        sleeps_of tr @ map (\<lambda>i. (next_delay ^^ i) (Finite 600)) [0..<retries - 1] \<and>
      (0 < retries \<longrightarrow> last (snd (fetchWithRetry net rq retries tr)) = Fetch rq)) \<and>
   (0 < retries \<and> net (length (fetches_of tr)) rq = Inr res \<and> \<not> retryable (status res) \<longrightarrow>
      fetchWithRetry net rq retries tr = (Inr (Some res), tr @ [Fetch rq]))"
proof (intro conjI impI)
  assume all: "\<forall>i<retries. \<exists>res. net (length (fetches_of tr) + i) rq = Inr res \<and> retryable (status res)"
  have "retry_worthy (net (length (fetches_of tr) + i) rq)" if "i < retries - 1" for i
  proof -
    from that have "i < retries" by simp
    with all obtain res where "net (length (fetches_of tr) + i) rq = Inr res" "retryable (status res)"
      by blast
    then show ?thesis by (simp add: retry_worthy_def)
  qed
  then have count: "retry_count net rq (length (fetches_of tr)) (retries - 1) = retries - 1"
    by (simp add: retry_count_full)
  show "fetches_of (snd (fetchWithRetry net rq retries tr)) = fetches_of tr @ replicate retries rq"
    using count by (cases retries) (simp_all add: fetchWithRetry_trace replicate_append_same)
  show "sleeps_of (snd (fetchWithRetry net rq retries tr)) =
        sleeps_of tr @ map (\<lambda>i. (next_delay ^^ i) (Finite 600)) [0..<retries - 1]"
    using count by (simp add: fetchWithRetry_trace sleeps_of_retry_steps)
  show "last (snd (fetchWithRetry net rq retries tr)) = Fetch rq" if "0 < retries"
    using that by (simp add: fetchWithRetry_trace)
next
  assume "0 < retries \<and> net (length (fetches_of tr)) rq = Inr res \<and> \<not> retryable (status res)"
  then show "fetchWithRetry net rq retries tr = (Inr (Some res), tr @ [Fetch rq])"
    unfolding fetchWithRetry_def by (intro retry_loop_return) simp_all
qed

theorem fetchWithRetry_calls_and_delays_witness:
  "fetches_of (snd (fetchWithRetry (\<lambda>i rq. Inr busy) ping 7 [])) = replicate 7 ping \<and>
   sleeps_of (snd (fetchWithRetry (\<lambda>i rq. Inr busy) ping 7 [])) =
     [Finite 600, Finite 1080, Finite 1944, Finite (7694822175827559 / 2199023255552),
      Finite (6925339958244803 / 1099511627776), Finite (6232805962420323 / 549755813888)] \<and>
   last (snd (fetchWithRetry (\<lambda>i rq. Inr busy) ping 7 [])) = Fetch ping \<and>
   fetchWithRetry (\<lambda>i rq. Inr not_found) ping 7 [] = (Inr (Some not_found), [Fetch ping])"
proof -
  have busy: "\<forall>i<7. \<exists>res. (\<lambda>i rq. Inr busy) (length (fetches_of []) + i) ping = Inr res \<and> retryable (status res)"
    by (simp add: busy_def retryable_def)
  have nf: "0 < (7::nat) \<and> (\<lambda>i rq. Inr not_found) (length (fetches_of [])) ping = Inr not_found \<and>
      \<not> retryable (status not_found)"
    by (simp add: not_found_def retryable_def)
  note sched = first_delays
  show ?thesis
    using fetchWithRetry_calls_and_delays [of 7 "\<lambda>i rq. Inr busy" "[]" ping] busy
      fetchWithRetry_calls_and_delays [of 7 "\<lambda>i rq. Inr not_found" "[]" ping not_found] nf
    by (simp add: sched)
qed

text \<open>
  Claim C4. \<^verbatim>\<open>fetchWithRetry\<close> throws exactly when its last attempt is reached (every
  earlier attempt ended in a transport error or a retryable status) and the transport
  fails there; it then throws that error. When the last attempt is reached and gets a
  response, that response is returned as it is, whatever its status. A transport error
  on an attempt that is not the last is swallowed: the loop waits \<open>delay\<close>, multiplies
  it by 1.8 (\<open>next_delay\<close>) and goes on with the next attempt.
\<close>

theorem fetchWithRetry_fails_iff:
  "(fst (fetchWithRetry net rq retries tr) = Inl e \<longleftrightarrow>
      0 < retries \<and>
      (\<forall>i<retries - 1. retry_worthy (net (length (fetches_of tr) + i) rq)) \<and>
      net (length (fetches_of tr) + (retries - 1)) rq = Inl e) \<and>
   (0 < retries \<and>
      (\<forall>i<retries - 1. retry_worthy (net (length (fetches_of tr) + i) rq)) \<and>
      net (length (fetches_of tr) + (retries - 1)) rq = Inr res \<longrightarrow>
      fst (fetchWithRetry net rq retries tr) = Inr (Some res)) \<and>
   (attempt < retries \<and> net (length (fetches_of tr)) rq = Inl e \<longrightarrow>
      retry_loop net rq retries attempt delay tr =
      retry_loop net rq retries (attempt + 1) (next_delay delay) (tr @ [Fetch rq, Sleep delay]))"
proof (cases retries)
  case 0
  then show ?thesis by (simp add: fetchWithRetry_zero)
next
  case (Suc n)
  define c where "c = length (fetches_of tr)"
  define j where "j = retry_count net rq c n"
  have fst_eq: "fst (fetchWithRetry net rq (Suc n) tr) =
      (case net (c + j) rq of Inl e \<Rightarrow> Inl e | Inr res \<Rightarrow> Inr (Some res))"
    by (simp add: fetchWithRetry_run c_def j_def)
  have full: "(j = n) = (\<forall>i<n. retry_worthy (net (c + i) rq))"
    unfolding j_def by (rule retry_count_full)
  have fails: "fst (fetchWithRetry net rq (Suc n) tr) = Inl e \<longleftrightarrow>
      (\<forall>i<n. retry_worthy (net (c + i) rq)) \<and> net (c + n) rq = Inl e"
  proof
    assume "fst (fetchWithRetry net rq (Suc n) tr) = Inl e"
    with fst_eq have err: "net (c + j) rq = Inl e" by (simp split: sum.splits)
    then have "retry_worthy (net (c + j) rq)" by (simp add: retry_worthy_def)
    then have "\<not> j < n"
      using retry_count_stop [of net rq c n] by (auto simp: j_def)
    with retry_count_le [of net rq c n] have "j = n" by (simp add: j_def)
    with err full show "(\<forall>i<n. retry_worthy (net (c + i) rq)) \<and> net (c + n) rq = Inl e"
      by simp
  next
    assume "(\<forall>i<n. retry_worthy (net (c + i) rq)) \<and> net (c + n) rq = Inl e"
    with full have "net (c + j) rq = Inl e" by simp
    with fst_eq show "fst (fetchWithRetry net rq (Suc n) tr) = Inl e" by simp
  qed
  have returns: "fst (fetchWithRetry net rq (Suc n) tr) = Inr (Some res)"
    if "(\<forall>i<n. retry_worthy (net (c + i) rq)) \<and> net (c + n) rq = Inr res"
  proof -
    from that full have "net (c + j) rq = Inr res" by simp
    with fst_eq show ?thesis by simp
  qed
  have swallow: "retry_loop net rq (Suc n) attempt delay tr =
      retry_loop net rq (Suc n) (attempt + 1) (next_delay delay) (tr @ [Fetch rq, Sleep delay])"
    if "attempt < Suc n \<and> net (length (fetches_of tr)) rq = Inl e"
    using that retry_loop_retry [of attempt "Suc n" net tr rq delay] by (simp add: retry_worthy_def)
  from fails returns swallow show ?thesis
    unfolding Suc c_def by simp
qed

theorem fetchWithRetry_fails_iff_witness:
  "fst (fetchWithRetry unreachable ping 3 []) = Inl (JsError ''ECONNRESET'') \<and>
   fst (fetchWithRetry flaky ping 3 []) = Inr (Some busy) \<and>
   retry_loop flaky ping 3 1 (Finite 600) [] =
     retry_loop flaky ping 3 2 (Finite 1080) [Fetch ping, Sleep (Finite 600)]"
  using fetchWithRetry_fails_iff [of unreachable ping 3 "[]" "JsError ''ECONNRESET''" busy 1 "Finite 600"]
    fetchWithRetry_fails_iff [of flaky ping 3 "[]" "JsError ''ECONNRESET''" busy 1 "Finite 600"]
  by (simp add: unreachable_def flaky_def retry_worthy_def numeral_2_eq_2 next_delay_600)

text \<open>
  Claim C8, as amended. Within one call of \<^verbatim>\<open>fetchWithRetry\<close> (the send for one model)
  the waits start at 600 ms and each is the one before it times 1.8 (the source's
  \<^verbatim>\<open>delay *= 1.8\<close> on doubles), one between two consecutive HTTP calls, whatever the
  upstream answers: the delay is multiplied before each retry and never reset within
  the send.
\<close>

theorem backoff_grows_within_one_send:
  "sleeps_of (snd (fetchWithRetry net rq retries tr)) =
     sleeps_of tr @
     map (\<lambda>i. (next_delay ^^ i) (Finite 600))
       [0..<length (fetches_of (snd (fetchWithRetry net rq retries tr))) - length (fetches_of tr) - 1]"
  by (simp add: fetchWithRetry_trace sleeps_of_retry_steps)

text \<open>
  Claim C8, as stated, fails. A dispatch of a generate request runs \<^verbatim>\<open>fetchWithRetry\<close>
  once for each model, and \<^verbatim>\<open>let delay = 600\<close> is local to it: when the primary model
  answers 503 seven times, the waits for the fallback model start again at 600 ms:
  the seventh wait of the dispatch is 600, not 1.8 times the sixth.
\<close>

theorem backoff_reset_for_fallback_counterexample:
  "sleeps_of (snd (generate (key_env (\<lambda>i rq. Inr busy)) hi_body [])) =
     [Finite 600, Finite 1080, Finite 1944, Finite (7694822175827559 / 2199023255552),
      Finite (6925339958244803 / 1099511627776), Finite (6232805962420323 / 549755813888),
      Finite 600, Finite 1080, Finite 1944, Finite (7694822175827559 / 2199023255552),
      Finite (6925339958244803 / 1099511627776), Finite (6232805962420323 / 549755813888)] \<and>
   sleeps_of (snd (generate (key_env (\<lambda>i rq. Inr busy)) hi_body [])) ! 6 \<noteq>
     next_delay (sleeps_of (snd (generate (key_env (\<lambda>i rq. Inr busy)) hi_body [])) ! 5)"
  proof -
  let ?env = "key_env (\<lambda>i rq. Inr busy)"
  let ?tr2 = "retry_steps (hi_request PRIMARY_MODEL) (Finite 600) 6 @ [Fetch (hi_request PRIMARY_MODEL)]"
  let ?tr4 = "?tr2 @ retry_steps (hi_request FALLBACK_MODEL) (Finite 600) 6 @
      [Fetch (hi_request FALLBACK_MODEL)]"
  have b1: "build_request ?env PRIMARY_MODEL (JStr ''hi'') [] = (Inr (hi_request PRIMARY_MODEL), [])"
    by (simp add: build_request_def key_env_def hi_request_def hi_wire)
  have f1: "fetchWithRetry (fetch ?env) (hi_request PRIMARY_MODEL) 7 [] = (Inr (Some busy), ?tr2)"
    by (simp add: fetchWithRetry_7_exhausted key_env_def retry_worthy_def busy_def retryable_def)
  have b2: "build_request ?env FALLBACK_MODEL (JStr ''hi'') ?tr2 = (Inr (hi_request FALLBACK_MODEL), ?tr2)"
    by (simp add: build_request_def key_env_def hi_request_def hi_wire)
  have f2: "fetchWithRetry (fetch ?env) (hi_request FALLBACK_MODEL) 7 ?tr2 = (Inr (Some busy), ?tr4)"
    by (simp add: fetchWithRetry_7_exhausted key_env_def retry_worthy_def busy_def retryable_def)
  have n: "\<not> ok busy"
    by (simp add: ok_def busy_def)
  have "snd (try_models ?env (JStr ''hi'') [PRIMARY_MODEL, FALLBACK_MODEL] []) = ?tr4"
    using models_differ by (simp add: b1 f1 b2 f2 n)
  then have "snd (generate ?env hi_body []) = ?tr4"
    by (simp add: generate_def hi_body_def case_prod_unfold del: try_models.simps split: sum.splits)
  then have "sleeps_of (snd (generate ?env hi_body [])) =
      map (\<lambda>i. (next_delay ^^ i) (Finite 600)) [0..<6] @
      map (\<lambda>i. (next_delay ^^ i) (Finite 600)) [0..<6]"
    by (simp add: sleeps_of_retry_steps)
  then show ?thesis
    by (simp add: first_delays next_delay_11337)
qed

section \<open>The dispatcher\<close>

text \<open>
  Claim C2. When the send for a model throws (a transport error on its seventh
  attempt), the loop over the models ends with that error, whatever models follow in
  the list: the trace ends with the seventh call for that model. For the primary model,
  the handler answers 500 with the error, and the fallback model is never tried.
\<close>

theorem transport_exhaustion_is_fatal:
  assumes "build_request env m prompt tr = (Inr rq, tr1)"
    and "fst (fetchWithRetry (fetch env) rq 7 tr1) = Inl e"
  shows "try_models env prompt (m # rest) tr = (Inl e, tr1 @ retry_steps rq (Finite 600) 6 @ [Fetch rq]) \<and>
    fetches_of (tr1 @ retry_steps rq (Finite 600) 6 @ [Fetch rq]) = fetches_of tr1 @ replicate 7 rq \<and>
    (m = PRIMARY_MODEL \<and> get_prop ''prompt'' req_body = Inr prompt \<and> truthy prompt \<longrightarrow>
       generate env req_body tr =
         (Some (Reply 500 (JObj [(''error'', JStr ''internal error''),
                                 (''details'', JStr (error_toString e))])),
          tr1 @ retry_steps rq (Finite 600) 6 @ [Fetch rq]))"
proof -
  have seven: "(7::nat) = Suc 6" by simp
  from assms(2) have "snd (fetchWithRetry (fetch env) rq 7 tr1) = tr1 @ retry_steps rq (Finite 600) 6 @ [Fetch rq]"
    unfolding seven by (rule fetchWithRetry_error_trace)
  with assms(2) have send: "fetchWithRetry (fetch env) rq 7 tr1 = (Inl e, tr1 @ retry_steps rq (Finite 600) 6 @ [Fetch rq])"
    by (simp add: prod_eq_iff)
  have models: "try_models env prompt (m # ms) tr = (Inl e, tr1 @ retry_steps rq (Finite 600) 6 @ [Fetch rq])" for ms
    by (simp add: assms(1) send)
  have calls: "fetches_of (tr1 @ retry_steps rq (Finite 600) 6 @ [Fetch rq]) = fetches_of tr1 @ replicate 7 rq"
    by (simp add: eval_nat_numeral)
  have "generate env req_body tr =
         (Some (Reply 500 (JObj [(''error'', JStr ''internal error''),
                                 (''details'', JStr (error_toString e))])),
          tr1 @ retry_steps rq (Finite 600) 6 @ [Fetch rq])"
    if "m = PRIMARY_MODEL" "get_prop ''prompt'' req_body = Inr prompt" "truthy prompt"
    using that models [of "[FALLBACK_MODEL]"] by (simp add: generate_def)
  with models calls show ?thesis by blast
qed

theorem transport_exhaustion_is_fatal_witness:
  "generate (key_env unreachable) hi_body [] =
     (Some (Reply 500 (JObj [(''error'', JStr ''internal error''),
                             (''details'', JStr ''ECONNRESET'')])),
      retry_steps (hi_request PRIMARY_MODEL) (Finite 600) 6 @ [Fetch (hi_request PRIMARY_MODEL)]) \<and>
   fetches_of (retry_steps (hi_request PRIMARY_MODEL) (Finite 600) 6 @ [Fetch (hi_request PRIMARY_MODEL)]) =
     replicate 7 (hi_request PRIMARY_MODEL)"
proof -
  have b: "build_request (key_env unreachable) PRIMARY_MODEL (JStr ''hi'') [] =
      (Inr (hi_request PRIMARY_MODEL), [])"
    by (simp add: build_request_def key_env_def hi_request_def hi_wire)
  have f: "fst (fetchWithRetry (fetch (key_env unreachable)) (hi_request PRIMARY_MODEL) 7 []) =
      Inl (JsError ''ECONNRESET'')"
    by (simp add: fetchWithRetry_7_exhausted key_env_def unreachable_def retry_worthy_def)
  have p: "get_prop ''prompt'' hi_body = Inr (JStr ''hi'') \<and> truthy (JStr ''hi'')"
    by (simp add: hi_body_def)
  show ?thesis
    using transport_exhaustion_is_fatal [OF b f, of "[FALLBACK_MODEL]" hi_body] p by simp
qed

text \<open>
  Claim C3. When the send for the primary model returns a response that is not 2xx, the
  dispatcher goes on with the fallback model. When the send for the fallback model
  returns a response that is not 2xx either, the handler answers 502 with the fields
  \<^verbatim>\<open>error\<close>, \<^verbatim>\<open>status\<close> and \<^verbatim>\<open>body\<close>, the status and the body being those of the
  fallback model's response (the body is empty when it cannot be read), and the last
  HTTP call of the run is the fallback model's.
\<close>

theorem fallback_after_upstream_failure:
  assumes "build_request env PRIMARY_MODEL prompt tr = (Inr rq1, tr1)"
    and "fetchWithRetry (fetch env) rq1 7 tr1 = (Inr (Some r1), tr2)"
    and "\<not> ok r1"
  shows "try_models env prompt [PRIMARY_MODEL, FALLBACK_MODEL] tr =
           try_models env prompt [FALLBACK_MODEL] tr2 \<and>
    (build_request env FALLBACK_MODEL prompt tr2 = (Inr rq2, tr3) \<and>
     fetchWithRetry (fetch env) rq2 7 tr3 = (Inr (Some r2), tr4) \<and> \<not> ok r2 \<and>
     get_prop ''prompt'' req_body = Inr prompt \<and> truthy prompt \<longrightarrow>
       generate env req_body tr =
         (Some (Reply 502 (JObj
            [(''error'', JStr ''upstream error''),
             (''status'', JNum (Finite (of_nat (status r2)))),
             (''body'', JStr (case text_result r2 of Inl e \<Rightarrow> [] | Inr t \<Rightarrow> t))])),
          tr4) \<and>
       last tr4 = Fetch rq2)"
proof (intro conjI impI)
  show first: "try_models env prompt [PRIMARY_MODEL, FALLBACK_MODEL] tr =
           try_models env prompt [FALLBACK_MODEL] tr2"
    using assms models_differ by simp
  assume fb: "build_request env FALLBACK_MODEL prompt tr2 = (Inr rq2, tr3) \<and>
     fetchWithRetry (fetch env) rq2 7 tr3 = (Inr (Some r2), tr4) \<and> \<not> ok r2 \<and>
     get_prop ''prompt'' req_body = Inr prompt \<and> truthy prompt"
  then have "generate env req_body tr =
      (case try_models env prompt [PRIMARY_MODEL, FALLBACK_MODEL] tr of
         (Inl err, tr') \<Rightarrow>
           (Some (Reply 500 (JObj
              [(''error'', JStr ''internal error''),
               (''details'', JStr (error_toString err))])), tr')
       | (Inr r, tr') \<Rightarrow> (r, tr'))"
    by (simp add: generate_def del: try_models.simps)
  with fb show "generate env req_body tr =
         (Some (Reply 502 (JObj
            [(''error'', JStr ''upstream error''),
             (''status'', JNum (Finite (of_nat (status r2)))),
             (''body'', JStr (case text_result r2 of Inl e \<Rightarrow> [] | Inr t \<Rightarrow> t))])),
          tr4)"
    unfolding first by simp
  from fb obtain j where "tr4 = tr3 @ retry_steps rq2 (Finite 600) j @ [Fetch rq2]"
    by (auto elim: fetchWithRetry_7)
  then show "last tr4 = Fetch rq2" by simp
qed

theorem fallback_after_upstream_failure_witness:
  "generate (key_env busy_then_missing) hi_body [] =
     (Some (Reply 502 (JObj
        [(''error'', JStr ''upstream error''),
         (''status'', JNum (Finite 404)),
         (''body'', JStr ''no such model'')])),
      retry_steps (hi_request PRIMARY_MODEL) (Finite 600) 6 @
        [Fetch (hi_request PRIMARY_MODEL), Fetch (hi_request FALLBACK_MODEL)]) \<and>
   last (retry_steps (hi_request PRIMARY_MODEL) (Finite 600) 6 @
        [Fetch (hi_request PRIMARY_MODEL), Fetch (hi_request FALLBACK_MODEL)]) =
     Fetch (hi_request FALLBACK_MODEL)"
proof -
  let ?env = "key_env busy_then_missing"
  let ?tr2 = "retry_steps (hi_request PRIMARY_MODEL) (Finite 600) 6 @ [Fetch (hi_request PRIMARY_MODEL)]"
  have b1: "build_request ?env PRIMARY_MODEL (JStr ''hi'') [] = (Inr (hi_request PRIMARY_MODEL), [])"
    by (simp add: build_request_def key_env_def hi_request_def hi_wire)
  have f1: "fetchWithRetry (fetch ?env) (hi_request PRIMARY_MODEL) 7 [] = (Inr (Some busy), ?tr2)"
    by (simp add: fetchWithRetry_7_exhausted key_env_def busy_then_missing_def retry_worthy_def
        busy_def retryable_def)
  have n1: "\<not> ok busy"
    by (simp add: ok_def busy_def)
  have b2: "build_request ?env FALLBACK_MODEL (JStr ''hi'') ?tr2 = (Inr (hi_request FALLBACK_MODEL), ?tr2)"
    by (simp add: build_request_def key_env_def hi_request_def hi_wire)
  have f2: "fetchWithRetry (fetch ?env) (hi_request FALLBACK_MODEL) 7 ?tr2 =
      (Inr (Some not_found), ?tr2 @ [Fetch (hi_request FALLBACK_MODEL)])"
    by (simp add: fetchWithRetry_first_final key_env_def busy_then_missing_def retry_worthy_def
        not_found_def retryable_def)
  have n2: "\<not> ok not_found"
    by (simp add: ok_def not_found_def)
  have p: "get_prop ''prompt'' hi_body = Inr (JStr ''hi'') \<and> truthy (JStr ''hi'')"
    by (simp add: hi_body_def)
  show ?thesis
    using fallback_after_upstream_failure [OF b1 f1 n1, of "hi_request FALLBACK_MODEL"
        ?tr2 not_found "?tr2 @ [Fetch (hi_request FALLBACK_MODEL)]" hi_body]
      b2 f2 n2 p
    by (simp add: not_found_def)
qed

text \<open>
  Claim C5. A request body whose \<^verbatim>\<open>prompt\<close> is absent or the empty string is answered
  400 with an \<^verbatim>\<open>error\<close> field, and the trace is unchanged: no token exchange and no
  HTTP call.
\<close>

theorem missing_prompt_rejected:
  assumes "map_of fs ''prompt'' = None \<or> map_of fs ''prompt'' = Some (JStr [])"
  shows "generate env (JObj fs) tr = (Some (Reply 400 (JObj [(''error'', JStr ''Missing prompt'')])), tr)"
  using assms by (auto simp: generate_def)

theorem missing_prompt_rejected_witness:
  "generate (key_env unreachable) (JObj []) [] =
     (Some (Reply 400 (JObj [(''error'', JStr ''Missing prompt'')])), []) \<and>
   generate (key_env unreachable) (JObj [(''prompt'', JStr [])]) [] =
     (Some (Reply 400 (JObj [(''error'', JStr ''Missing prompt'')])), [])"
  using missing_prompt_rejected [of "[]" "key_env unreachable" "[]"]
    missing_prompt_rejected [of "[(''prompt'', JStr [])]" "key_env unreachable" "[]"]
  by simp

section \<open>The extracted text\<close>

lemma get_prop_own: "v \<noteq> JUndefined \<Longrightarrow> v \<noteq> JNull \<Longrightarrow> get_prop name v = Inr (own_prop name v)"
  by (cases v) simp_all


lemma part_text_own:
  "p \<noteq> JUndefined \<Longrightarrow> p \<noteq> JNull \<Longrightarrow> part_text p = Inr (js_or (own_prop ''text'' p) (JStr []))"
  by (simp add: part_text_def get_prop_own)


lemma map_parts_ok:
  "\<forall>p\<in>set ps. p \<noteq> JUndefined \<and> p \<noteq> JNull \<Longrightarrow>
   map_parts ps = Inr (map (\<lambda>p. js_or (own_prop ''text'' p) (JStr [])) ps)"
  by (induction ps) (simp_all add: part_text_own)


lemma join_ok:
  "\<forall>t\<in>set ts. t \<noteq> JUndefined \<and> t \<noteq> JNull \<and> to_string nts t = Inr (f t) \<Longrightarrow>
   join nts [CHR 0x0A] ts = Inr (joined (map f ts))"
  by (induction ts rule: induct_list012) simp_all

lemma kept_text:
  assumes "well_formed_part nts p"
  shows "js_or (own_prop ''text'' p) (JStr []) \<noteq> JUndefined \<and>
    js_or (own_prop ''text'' p) (JStr []) \<noteq> JNull \<and>
    to_string nts (js_or (own_prop ''text'' p) (JStr [])) = Inr (text_of nts p)"
  using assms by (auto simp: well_formed_part_def js_or_def text_of_def split: sum.splits)




text \<open>
  Claim C9, as amended. When \<^verbatim>\<open>parts\<close> resolves to an array (of any length) none of
  whose elements is \<^verbatim>\<open>null\<close> and whose text fields can be converted to strings, the text
  returned is the parts' text fields joined by a single newline, a part with no text
  field or a falsy one contributing the empty string.
\<close>

theorem extracted_text_joins_parts:
  assumes "resolve_parts json = JArr ps" and "\<forall>p\<in>set ps. well_formed_part nts p"
  shows "extract_text nts json = JStr (joined (map (text_of nts) ps))"
proof -
  let ?kept = "\<lambda>p. js_or (own_prop ''text'' p) (JStr [])"
  let ?f = "\<lambda>t. case to_string nts t of Inl e \<Rightarrow> [] | Inr s \<Rightarrow> s"
  have "\<forall>p\<in>set ps. p \<noteq> JUndefined \<and> p \<noteq> JNull"
    using assms(2) by (simp add: well_formed_part_def)
  then have mapped: "map_parts ps = Inr (map ?kept ps)"
    by (rule map_parts_ok)
  have "\<forall>t\<in>set (map ?kept ps). t \<noteq> JUndefined \<and> t \<noteq> JNull \<and> to_string nts t = Inr (?f t)"
    using assms(2) kept_text [of nts] by auto
  then have j: "join nts [CHR 0x0A] (map ?kept ps) = Inr (joined (map ?f (map ?kept ps)))"
    by (rule join_ok)
  have e: "map ?f (map ?kept ps) = map (text_of nts) ps"
    using assms(2) kept_text [of nts] by auto
  have "join nts [CHR 0x0A] (map ?kept ps) = Inr (joined (map (text_of nts) ps))"
    unfolding e [symmetric] by (rule j)
  then show ?thesis
    by (simp add: extract_text_def assms(1) mapped)
qed

theorem extracted_text_joins_parts_witness:
  "extract_text no_numbers
     (candidates_body (JArr [JObj [(''text'', JStr ''hello'')], JObj [], JObj [(''text'', JStr ''world'')]])) =
   JStr (''hello'' @ [CHR 0x0A] @ [CHR 0x0A] @ ''world'')"
proof -
  let ?ps = "[JObj [(''text'', JStr ''hello'')], JObj [], JObj [(''text'', JStr ''world'')]]"
  have r: "resolve_parts (candidates_body (JArr ?ps)) = JArr ?ps"
    by (simp add: resolve_parts_def candidates_parts_def candidates_body_def js_or_def)
  have w: "\<forall>p\<in>set ?ps. well_formed_part no_numbers p"
    by (simp add: well_formed_part_def)
  show ?thesis
    using extracted_text_joins_parts [OF r w] by (simp add: text_of_def)
qed

text \<open>
  Claim C9, as stated, fails: \<^verbatim>\<open>null\<close> is a JSON array element, \<^verbatim>\<open>p.text\<close> throws on
  it, the \<^verbatim>\<open>catch\<close> swallows the error and the text returned is \<^verbatim>\<open>null\<close>, not the
  joined fields.
\<close>

theorem null_part_counterexample:
  "resolve_parts (candidates_body (JArr [JNull, JObj [(''text'', JStr ''a'')]])) =
     JArr [JNull, JObj [(''text'', JStr ''a'')]] \<and>
   extract_text no_numbers (candidates_body (JArr [JNull, JObj [(''text'', JStr ''a'')]])) = JNull \<and>
   extract_text no_numbers (candidates_body (JArr [JNull, JObj [(''text'', JStr ''a'')]])) \<noteq>
     JStr (joined (map (text_of no_numbers) [JNull, JObj [(''text'', JStr ''a'')]]))"
  by (simp add: resolve_parts_def candidates_parts_def candidates_body_def js_or_def
      extract_text_def part_text_def)






section \<open>Invariants of the dispatcher\<close>

lemma build_request_key:
  assumes "GOOGLE_API_KEY env = Some k" and "k \<noteq> []"
  shows "build_request env m p tr =
     (Inr \<lparr>url = modelEndpoint m @ ''?key='' @ k, http_method = ''POST'',
           headers = [(''Content-Type'', ''application/json'')],
           body = JSON_stringify (request_body p)\<rparr>, tr)"
  using assms by (simp add: build_request_def)

lemma build_request_account:
  assumes "GOOGLE_API_KEY env = None \<or> GOOGLE_API_KEY env = Some []"
  shows "build_request env m p tr = service_account_request env m p tr"
  using assms by (auto simp: build_request_def)

lemma service_account_request_trace:
  "snd (service_account_request env m p tr) = tr @ [TokenExchange]"
  by (simp add: service_account_request_def split: sum.splits)

lemma service_account_request_body:
  "service_account_request env m p tr = (Inr rq, tr1) \<Longrightarrow>
   body rq = JSON_stringify (request_body p)"
  by (auto simp: service_account_request_def split: sum.splits)

lemma build_request_extends:
  assumes "build_request env m p tr = (r, tr1)"
  shows "tr1 = tr \<or> tr1 = tr @ [TokenExchange]"
  using assms service_account_request_trace [of env m p tr]
  by (auto simp: build_request_def split: option.splits if_splits)

lemma build_request_body:
  assumes "build_request env m p tr = (Inr rq, tr1)"
  shows "body rq = JSON_stringify (request_body p)"
  using assms service_account_request_body [of env m p tr rq tr1]
  by (auto simp: build_request_def split: option.splits if_splits)

text \<open>
  One round of the loop over the models: the credentials fail, or the round ends the
  loop after its send, or the loop goes on with the next model after its send.
\<close>

lemma try_models_step:
  obtains (creds) e tr1 where "build_request env m p tr = (Inl e, tr1)"
      and "try_models env p (m # ms) tr = (Inl e, tr1)"
  | (stop) rq tr1 j r where "build_request env m p tr = (Inr rq, tr1)"
      and "try_models env p (m # ms) tr = (r, tr1 @ retry_steps rq (Finite 600) j @ [Fetch rq])"
      and "\<And>c v. r = Inr (Some (Reply c v)) \<Longrightarrow> c = 502 \<or> c = 200"
  | (continue) rq tr1 j where "build_request env m p tr = (Inr rq, tr1)"
      and "try_models env p (m # ms) tr =
           try_models env p ms (tr1 @ retry_steps rq (Finite 600) j @ [Fetch rq])"
proof -
  obtain b tr1 where b: "build_request env m p tr = (b, tr1)"
    by (cases "build_request env m p tr") blast
  show thesis
  proof (cases b)
    case (Inl e)
    with b show thesis by (intro creds [of e tr1]) simp_all
  next
    case (Inr rq)
    obtain r tr2 where f: "fetchWithRetry (fetch env) rq 7 tr1 = (r, tr2)"
      by (cases "fetchWithRetry (fetch env) rq 7 tr1") blast
    then obtain j where tr2: "tr2 = tr1 @ retry_steps rq (Finite 600) j @ [Fetch rq]" and r: "r \<noteq> Inr None"
      by (rule fetchWithRetry_7)
    show thesis
    proof (cases "\<exists>gresp. r = Inr (Some gresp) \<and> \<not> ok gresp \<and> m \<noteq> FALLBACK_MODEL")
      case True
      with b Inr f tr2 show thesis by (intro continue [of rq tr1 j]) auto
    next
      case False
      let ?res = "try_models env p (m # ms) tr"
      from False b Inr f r have trace: "snd ?res = tr2"
        by (cases r) (auto split: sum.splits option.splits)
      have code: "c = 502 \<or> c = 200" if "fst ?res = Inr (Some (Reply c v))" for c v
        using that False b Inr f r by (cases r) (auto split: sum.splits option.splits if_splits)
      from trace tr2 have "?res = (fst ?res, tr1 @ retry_steps rq (Finite 600) j @ [Fetch rq])"
        by (simp add: prod_eq_iff del: try_models.simps)
      with b Inr show thesis
        by (intro stop [of rq tr1 "fst ?res" j]) (simp_all add: code del: try_models.simps)
    qed
  qed
qed

lemma try_models_reply_code:
  "fst (try_models env p ms tr) = Inr (Some (Reply c v)) \<Longrightarrow> c = 502 \<or> c = 200"
proof (induction ms arbitrary: tr)
  case Nil
  then show ?case by simp
next
  case (Cons m ms)
  show ?case
  proof (cases rule: try_models_step [of env m p tr ms])
    case (creds e tr1)
    with Cons.prems show ?thesis by simp
  next
    case (stop rq tr1 j r)
    with Cons.prems show ?thesis by simp
  next
    case (continue rq tr1 j)
    with Cons.prems show ?thesis by (intro Cons.IH) simp
  qed
qed

lemma try_models_extends:
  "\<exists>ext. snd (try_models env p ms tr) = tr @ ext \<and>
     (\<forall>rq\<in>set (fetches_of ext). body rq = JSON_stringify (request_body p))"
proof (induction ms arbitrary: tr)
  case Nil
  show ?case by simp
next
  case (Cons m ms)
  show ?case
  proof (cases rule: try_models_step [of env m p tr ms])
    case (creds e tr1)
    from build_request_extends [OF creds(1)] creds(2) show ?thesis by auto
  next
    case (stop rq tr1 j r)
    from build_request_extends [OF stop(1)] build_request_body [OF stop(1)] stop(2)
    show ?thesis by auto
  next
    case (continue rq tr1 j)
    from Cons.IH [of "tr1 @ retry_steps rq (Finite 600) j @ [Fetch rq]"] obtain ext
      where ext: "snd (try_models env p ms (tr1 @ retry_steps rq (Finite 600) j @ [Fetch rq])) =
          (tr1 @ retry_steps rq (Finite 600) j @ [Fetch rq]) @ ext"
        "\<forall>rq\<in>set (fetches_of ext). body rq = JSON_stringify (request_body p)"
      by blast
    from build_request_extends [OF continue(1)] build_request_body [OF continue(1)] continue(2) ext
    show ?thesis by auto
  qed
qed

lemma try_models_key_no_exchange:
  assumes "GOOGLE_API_KEY env = Some k" and "k \<noteq> []"
  shows "token_exchanges (snd (try_models env p ms tr)) = token_exchanges tr"
proof (induction ms arbitrary: tr)
  case Nil
  show ?case by simp
next
  case (Cons m ms)
  show ?case
  proof (cases rule: try_models_step [of env m p tr ms])
    case (creds e tr1)
    with build_request_key [OF assms, of m p tr] show ?thesis by simp
  next
    case (stop rq tr1 j r)
    with build_request_key [OF assms, of m p tr] show ?thesis by simp
  next
    case (continue rq tr1 j)
    with build_request_key [OF assms, of m p tr]
      Cons.IH [of "tr1 @ retry_steps rq (Finite 600) j @ [Fetch rq]"] show ?thesis by simp
  qed
qed

lemma try_models_first_attempt:
  assumes "build_request env m p tr = (Inr rq, tr1)"
  shows "\<exists>j more. snd (try_models env p (m # ms) tr) =
     tr1 @ retry_steps rq (Finite 600) j @ Fetch rq # more"
proof (cases rule: try_models_step [of env m p tr ms])
  case (creds e tr1')
  with assms show ?thesis by simp
next
  case (stop rq' tr1' j r)
  from stop(1) assms have "rq' = rq" "tr1' = tr1" by simp_all
  with stop(2) have "snd (try_models env p (m # ms) tr) =
      tr1 @ retry_steps rq (Finite 600) j @ Fetch rq # []"
    by (simp del: try_models.simps)
  then show ?thesis by blast
next
  case (continue rq' tr1' j)
  from continue(1) assms have eq: "rq' = rq" "tr1' = tr1" by simp_all
  from try_models_extends [of env p ms "tr1 @ retry_steps rq (Finite 600) j @ [Fetch rq]"] obtain ext
    where "snd (try_models env p ms (tr1 @ retry_steps rq (Finite 600) j @ [Fetch rq])) =
        (tr1 @ retry_steps rq (Finite 600) j @ [Fetch rq]) @ ext"
    by blast
  with continue(2) eq
  have "snd (try_models env p (m # ms) tr) = tr1 @ retry_steps rq (Finite 600) j @ Fetch rq # ext"
    by (simp del: try_models.simps)
  then show ?thesis by blast
qed

lemma try_models_last_attempt:
  assumes "build_request env m p tr = (Inr rq, tr1)"
  shows "\<exists>j. snd (try_models env p [m] tr) = tr1 @ retry_steps rq (Finite 600) j @ [Fetch rq]"
proof (cases rule: try_models_step [of env m p tr "[]"])
  case (creds e tr1')
  with assms show ?thesis by simp
next
  case (stop rq' tr1' j r)
  from stop(1) assms have "rq' = rq" "tr1' = tr1" by simp_all
  with stop(2) have "snd (try_models env p [m] tr) = tr1 @ retry_steps rq (Finite 600) j @ [Fetch rq]"
    by (simp del: try_models.simps)
  then show ?thesis by blast
next
  case (continue rq' tr1' j)
  from continue(1) assms have "rq' = rq" "tr1' = tr1" by simp_all
  with continue(2) have "snd (try_models env p [m] tr) = tr1 @ retry_steps rq (Finite 600) j @ [Fetch rq]"
    by (simp del: try_models.simps) simp
  then show ?thesis by blast
qed

lemma try_models_first_call:
  assumes "build_request env m p tr = (Inr rq, tr1)"
  shows "\<exists>more. fetches_of (snd (try_models env p (m # ms) tr)) = fetches_of tr @ rq # more"
proof -
  from try_models_first_attempt [OF assms, of ms] obtain j more
    where "snd (try_models env p (m # ms) tr) =
      tr1 @ retry_steps rq (Finite 600) j @ Fetch rq # more"
    by blast
  moreover from build_request_extends [OF assms] have "fetches_of tr1 = fetches_of tr"
    by auto
  ultimately have "fetches_of (snd (try_models env p (m # ms) tr)) =
      fetches_of tr @ rq # (replicate j rq @ fetches_of more)"
    by (simp add: replicate_app_Cons_same del: try_models.simps)
  then show ?thesis by blast
qed

lemma build_request_bearer:
  assumes "GOOGLE_API_KEY env = None \<or> GOOGLE_API_KEY env = Some []"
    and "getAccessToken env (token_exchanges tr) = Inr tok"
    and "get_prop ''token'' tok = Inr t"
    and "to_string (numberToString env) (js_or t tok) = Inr s"
  shows "build_request env m p tr =
     (Inr \<lparr>url = modelEndpoint m, http_method = ''POST'',
           headers = [(''Content-Type'', ''application/json''),
                      (''Authorization'', ''Bearer '' @ s)],
           body = JSON_stringify (request_body p)\<rparr>, tr @ [TokenExchange])"
  unfolding build_request_account [OF assms(1)] using assms(2-4)
  by (simp add: service_account_request_def)

lemma build_request_no_token:
  assumes "GOOGLE_API_KEY env = None \<or> GOOGLE_API_KEY env = Some []"
    and "getAccessToken env (token_exchanges tr) = Inl e"
  shows "build_request env m p tr = (Inl e, tr @ [TokenExchange])"
  unfolding build_request_account [OF assms(1)] using assms(2)
  by (simp add: service_account_request_def)

lemma generate_prompt:
  assumes "get_prop ''prompt'' req_body = Inr prompt" and "truthy prompt"
  shows "generate env req_body tr =
      (case try_models env prompt [PRIMARY_MODEL, FALLBACK_MODEL] tr of
         (Inl err, tr') \<Rightarrow>
           (Some (Reply 500 (JObj
              [(''error'', JStr ''internal error''),
               (''details'', JStr (error_toString err))])), tr')
       | (Inr r, tr') \<Rightarrow> (r, tr'))"
  using assms by (simp add: generate_def del: try_models.simps)

lemma generate_trace:
  assumes "get_prop ''prompt'' req_body = Inr prompt" and "truthy prompt"
  shows "snd (generate env req_body tr) =
     snd (try_models env prompt [PRIMARY_MODEL, FALLBACK_MODEL] tr)"
  unfolding generate_prompt [OF assms] by (simp split: prod.splits sum.splits)

lemma generate_key_no_exchange:
  assumes "GOOGLE_API_KEY env = Some k" and "k \<noteq> []"
  shows "token_exchanges (snd (generate env req_body tr)) = token_exchanges tr"
proof (cases "get_prop ''prompt'' req_body")
  case (Inl e)
  then show ?thesis by (simp add: generate_def)
next
  case (Inr prompt)
  show ?thesis
  proof (cases "truthy prompt")
    case True
    with Inr show ?thesis
      by (simp only: generate_trace try_models_key_no_exchange [OF assms])
  next
    case False
    with Inr show ?thesis by (simp add: generate_def)
  qed
qed

lemma generate_first_attempt:
  assumes "get_prop ''prompt'' req_body = Inr prompt" and "truthy prompt"
    and "build_request env PRIMARY_MODEL prompt tr = (Inr rq, tr1)"
  shows "\<exists>j more. snd (generate env req_body tr) =
     tr1 @ retry_steps rq (Finite 600) j @ Fetch rq # more"
  unfolding generate_trace [OF assms(1,2)] using assms(3) by (rule try_models_first_attempt)

lemma generate_first_call:
  assumes "get_prop ''prompt'' req_body = Inr prompt" and "truthy prompt"
    and "build_request env PRIMARY_MODEL prompt tr = (Inr rq, tr1)"
  shows "\<exists>more. fetches_of (snd (generate env req_body tr)) = fetches_of tr @ rq # more"
  unfolding generate_trace [OF assms(1,2)] using assms(3) by (rule try_models_first_call)

lemma generate_fallback_attempt:
  assumes "get_prop ''prompt'' req_body = Inr prompt" and "truthy prompt"
    and "build_request env PRIMARY_MODEL prompt tr = (Inr rq1, tr1)"
    and "fetchWithRetry (fetch env) rq1 7 tr1 = (Inr (Some r1), tr2)"
    and "\<not> ok r1"
    and "build_request env FALLBACK_MODEL prompt tr2 = (Inr rq2, tr3)"
  shows "\<exists>j. snd (generate env req_body tr) = tr3 @ retry_steps rq2 (Finite 600) j @ [Fetch rq2]"
proof -
  have "try_models env prompt [PRIMARY_MODEL, FALLBACK_MODEL] tr =
      try_models env prompt [FALLBACK_MODEL] tr2"
    using assms(3-5) models_differ by simp
  then show ?thesis
    unfolding generate_trace [OF assms(1,2)]
    using try_models_last_attempt [OF assms(6)] by (simp del: try_models.simps)
qed

lemma falsy_values:
  "(\<not> truthy v) =
     (v \<in> {JUndefined, JNull, JBool False, JNum (Finite 0), JNum NaN, JStr []})"
  by (cases v) auto

lemma truthy_defined: "truthy v \<Longrightarrow> v \<noteq> JUndefined"
  by auto

lemma JSON_stringify_request_body:
  "prompt \<noteq> JUndefined \<Longrightarrow>
   JSON_stringify (request_body prompt) =
     JObj [(''contents'', JArr [JObj [(''parts'', JArr [JObj [(''text'', JSON_stringify prompt)]])]])]"
  by (simp add: request_body_def)

lemma JSON_stringify_writable:
  "json_writable v \<Longrightarrow> JSON_stringify v = v"
  "writable_elems xs \<Longrightarrow> stringify_elems xs = xs"
  "writable_props fs \<Longrightarrow> stringify_props fs = fs"
  by (induction v and xs and fs rule: JSON_stringify_stringify_elems_stringify_props.induct)
    (auto split: js_number.splits)

section \<open>Credentials and prompt validation\<close>

text \<open>
  Claim C7. With a truthy \<^verbatim>\<open>GOOGLE_API_KEY\<close> the request for a model carries the key as
  the query parameter \<^verbatim>\<open>key\<close> of its URL and no \<^verbatim>\<open>Authorization\<close> header, building it
  exchanges no token (whatever service-account configuration there is), the whole
  dispatch exchanges none, and the dispatch of a truthy prompt starts with the HTTP
  calls of that request for the primary model. With no API key (absent or empty), every
  attempt of the loop over the models starts with a token exchange of its own: when it
  fails the attempt throws its error and no call is made; when it succeeds, the calls
  of the attempt carry the token it gave as \<^verbatim>\<open>Authorization: Bearer\<close>. So the dispatch
  of a truthy prompt starts with an exchange followed by the calls for the primary
  model with that token, and when the primary model's send ends on a response that is
  not 2xx, a second exchange follows, and the calls for the fallback model carry the
  second token.
\<close>

theorem credential_precedence:
  "(GOOGLE_API_KEY env = Some k \<and> k \<noteq> [] \<longrightarrow>
      build_request env m prompt tr =
        (Inr \<lparr>url = modelEndpoint m @ ''?key='' @ k, http_method = ''POST'',
              headers = [(''Content-Type'', ''application/json'')],
              body = JSON_stringify (request_body prompt)\<rparr>, tr) \<and>
      token_exchanges (snd (generate env req_body tr)) = token_exchanges tr \<and>
      (get_prop ''prompt'' req_body = Inr prompt \<and> truthy prompt \<longrightarrow>
         (\<exists>j more. snd (generate env req_body tr) =
            tr @ retry_steps
              \<lparr>url = modelEndpoint PRIMARY_MODEL @ ''?key='' @ k, http_method = ''POST'',
              headers = [(''Content-Type'', ''application/json'')],
              body = JSON_stringify (request_body prompt)\<rparr> (Finite 600) j @
            Fetch
              \<lparr>url = modelEndpoint PRIMARY_MODEL @ ''?key='' @ k, http_method = ''POST'',
              headers = [(''Content-Type'', ''application/json'')],
              body = JSON_stringify (request_body prompt)\<rparr> # more))) \<and>
   (GOOGLE_API_KEY env = None \<or> GOOGLE_API_KEY env = Some [] \<longrightarrow>
      snd (build_request env m prompt tr) = tr @ [TokenExchange] \<and>
      (getAccessToken env (token_exchanges tr) = Inl e \<longrightarrow>
         build_request env m prompt tr = (Inl e, tr @ [TokenExchange]) \<and>
         try_models env prompt (m # rest) tr = (Inl e, tr @ [TokenExchange])) \<and>
      (getAccessToken env (token_exchanges tr) = Inr tok \<and> get_prop ''token'' tok = Inr t \<and>
       to_string (numberToString env) (js_or t tok) = Inr s \<longrightarrow>
         build_request env m prompt tr =
           (Inr \<lparr>url = modelEndpoint m, http_method = ''POST'',
              headers = [(''Content-Type'', ''application/json''),
                         (''Authorization'', ''Bearer '' @ s)],
              body = JSON_stringify (request_body prompt)\<rparr>, tr @ [TokenExchange]) \<and>
         (\<exists>j more. snd (try_models env prompt (m # rest) tr) =
            tr @ TokenExchange # retry_steps
              \<lparr>url = modelEndpoint m, http_method = ''POST'',
              headers = [(''Content-Type'', ''application/json''),
                         (''Authorization'', ''Bearer '' @ s)],
              body = JSON_stringify (request_body prompt)\<rparr> (Finite 600) j @
            Fetch
              \<lparr>url = modelEndpoint m, http_method = ''POST'',
              headers = [(''Content-Type'', ''application/json''),
                         (''Authorization'', ''Bearer '' @ s)],
              body = JSON_stringify (request_body prompt)\<rparr> # more) \<and>
         (get_prop ''prompt'' req_body = Inr prompt \<and> truthy prompt \<longrightarrow>
            (\<exists>j more. snd (generate env req_body tr) =
               tr @ TokenExchange # retry_steps
              \<lparr>url = modelEndpoint PRIMARY_MODEL, http_method = ''POST'',
              headers = [(''Content-Type'', ''application/json''),
                         (''Authorization'', ''Bearer '' @ s)],
              body = JSON_stringify (request_body prompt)\<rparr> (Finite 600) j @
               Fetch
              \<lparr>url = modelEndpoint PRIMARY_MODEL, http_method = ''POST'',
              headers = [(''Content-Type'', ''application/json''),
                         (''Authorization'', ''Bearer '' @ s)],
              body = JSON_stringify (request_body prompt)\<rparr> # more))) \<and>
      (get_prop ''prompt'' req_body = Inr prompt \<and> truthy prompt \<and>
       build_request env PRIMARY_MODEL prompt tr = (Inr rq1, tr1) \<and>
       fetchWithRetry (fetch env) rq1 7 tr1 = (Inr (Some r1), tr2) \<and> \<not> ok r1 \<and>
       getAccessToken env (token_exchanges tr2) = Inr tok2 \<and> get_prop ''token'' tok2 = Inr t2 \<and>
       to_string (numberToString env) (js_or t2 tok2) = Inr s2 \<longrightarrow>
         token_exchanges tr2 = Suc (token_exchanges tr) \<and>
         (\<exists>j. snd (generate env req_body tr) =
            tr2 @ TokenExchange # retry_steps
              \<lparr>url = modelEndpoint FALLBACK_MODEL, http_method = ''POST'',
              headers = [(''Content-Type'', ''application/json''),
                         (''Authorization'', ''Bearer '' @ s2)],
              body = JSON_stringify (request_body prompt)\<rparr> (Finite 600) j @
            [Fetch
              \<lparr>url = modelEndpoint FALLBACK_MODEL, http_method = ''POST'',
              headers = [(''Content-Type'', ''application/json''),
                         (''Authorization'', ''Bearer '' @ s2)],
              body = JSON_stringify (request_body prompt)\<rparr>])))"
proof (intro conjI impI)
  assume key: "GOOGLE_API_KEY env = Some k \<and> k \<noteq> []"
  then have b: "build_request env m' prompt tr =
        (Inr \<lparr>url = modelEndpoint m' @ ''?key='' @ k, http_method = ''POST'',
              headers = [(''Content-Type'', ''application/json'')],
              body = JSON_stringify (request_body prompt)\<rparr>, tr)" for m'
    by (simp add: build_request_key)
  show "build_request env m prompt tr =
        (Inr \<lparr>url = modelEndpoint m @ ''?key='' @ k, http_method = ''POST'',
              headers = [(''Content-Type'', ''application/json'')],
              body = JSON_stringify (request_body prompt)\<rparr>, tr)"
    by (rule b)
  from key show "token_exchanges (snd (generate env req_body tr)) = token_exchanges tr"
    by (simp add: generate_key_no_exchange)
  show "\<exists>j more. snd (generate env req_body tr) =
            tr @ retry_steps
              \<lparr>url = modelEndpoint PRIMARY_MODEL @ ''?key='' @ k, http_method = ''POST'',
              headers = [(''Content-Type'', ''application/json'')],
              body = JSON_stringify (request_body prompt)\<rparr> (Finite 600) j @
            Fetch
              \<lparr>url = modelEndpoint PRIMARY_MODEL @ ''?key='' @ k, http_method = ''POST'',
              headers = [(''Content-Type'', ''application/json'')],
              body = JSON_stringify (request_body prompt)\<rparr> # more"
    if "get_prop ''prompt'' req_body = Inr prompt \<and> truthy prompt"
    using that generate_first_attempt [OF _ _ b [of PRIMARY_MODEL], of req_body] by blast
next
  assume nokey: "GOOGLE_API_KEY env = None \<or> GOOGLE_API_KEY env = Some []"
  then have acc: "build_request env m prompt tr = service_account_request env m prompt tr"
    by (rule build_request_account)
  show "snd (build_request env m prompt tr) = tr @ [TokenExchange]"
    unfolding acc by (rule service_account_request_trace)
  {
    assume "getAccessToken env (token_exchanges tr) = Inl e"
    with nokey show failed: "build_request env m prompt tr = (Inl e, tr @ [TokenExchange])"
      by (rule build_request_no_token)
    then show "try_models env prompt (m # rest) tr = (Inl e, tr @ [TokenExchange])"
      by simp
  }
  {
    assume tok: "getAccessToken env (token_exchanges tr) = Inr tok \<and> get_prop ''token'' tok = Inr t \<and>
       to_string (numberToString env) (js_or t tok) = Inr s"
    then have b: "build_request env m' prompt tr =
           (Inr \<lparr>url = modelEndpoint m', http_method = ''POST'',
              headers = [(''Content-Type'', ''application/json''),
                         (''Authorization'', ''Bearer '' @ s)],
              body = JSON_stringify (request_body prompt)\<rparr>, tr @ [TokenExchange])" for m'
      using build_request_bearer [OF nokey, of tr tok t s m' prompt] by blast
    show "build_request env m prompt tr =
           (Inr \<lparr>url = modelEndpoint m, http_method = ''POST'',
              headers = [(''Content-Type'', ''application/json''),
                         (''Authorization'', ''Bearer '' @ s)],
              body = JSON_stringify (request_body prompt)\<rparr>, tr @ [TokenExchange])"
      by (rule b)
    show "\<exists>j more. snd (try_models env prompt (m # rest) tr) =
            tr @ TokenExchange # retry_steps
              \<lparr>url = modelEndpoint m, http_method = ''POST'',
              headers = [(''Content-Type'', ''application/json''),
                         (''Authorization'', ''Bearer '' @ s)],
              body = JSON_stringify (request_body prompt)\<rparr> (Finite 600) j @
            Fetch
              \<lparr>url = modelEndpoint m, http_method = ''POST'',
              headers = [(''Content-Type'', ''application/json''),
                         (''Authorization'', ''Bearer '' @ s)],
              body = JSON_stringify (request_body prompt)\<rparr> # more"
      using try_models_first_attempt [OF b [of m], of rest] by simp
    show "\<exists>j more. snd (generate env req_body tr) =
               tr @ TokenExchange # retry_steps
              \<lparr>url = modelEndpoint PRIMARY_MODEL, http_method = ''POST'',
              headers = [(''Content-Type'', ''application/json''),
                         (''Authorization'', ''Bearer '' @ s)],
              body = JSON_stringify (request_body prompt)\<rparr> (Finite 600) j @
               Fetch
              \<lparr>url = modelEndpoint PRIMARY_MODEL, http_method = ''POST'',
              headers = [(''Content-Type'', ''application/json''),
                         (''Authorization'', ''Bearer '' @ s)],
              body = JSON_stringify (request_body prompt)\<rparr> # more"
      if "get_prop ''prompt'' req_body = Inr prompt \<and> truthy prompt"
      using that generate_first_attempt [OF _ _ b [of PRIMARY_MODEL], of req_body] by simp
  }
  {
    assume fb: "get_prop ''prompt'' req_body = Inr prompt \<and> truthy prompt \<and>
       build_request env PRIMARY_MODEL prompt tr = (Inr rq1, tr1) \<and>
       fetchWithRetry (fetch env) rq1 7 tr1 = (Inr (Some r1), tr2) \<and> \<not> ok r1 \<and>
       getAccessToken env (token_exchanges tr2) = Inr tok2 \<and> get_prop ''token'' tok2 = Inr t2 \<and>
       to_string (numberToString env) (js_or t2 tok2) = Inr s2"
    then have "snd (build_request env PRIMARY_MODEL prompt tr) = tr1"
      by simp
    then have tr1: "tr1 = tr @ [TokenExchange]"
      unfolding build_request_account [OF nokey] by (simp add: service_account_request_trace)
    from fb obtain j where "tr2 = tr1 @ retry_steps rq1 (Finite 600) j @ [Fetch rq1]"
      by (auto elim: fetchWithRetry_7)
    with tr1 show "token_exchanges tr2 = Suc (token_exchanges tr)"
      by simp
    from fb have b2: "build_request env FALLBACK_MODEL prompt tr2 =
           (Inr \<lparr>url = modelEndpoint FALLBACK_MODEL, http_method = ''POST'',
              headers = [(''Content-Type'', ''application/json''),
                         (''Authorization'', ''Bearer '' @ s2)],
              body = JSON_stringify (request_body prompt)\<rparr>, tr2 @ [TokenExchange])"
      using build_request_bearer [OF nokey, of tr2 tok2 t2 s2 FALLBACK_MODEL prompt] by blast
    from fb show "\<exists>j. snd (generate env req_body tr) =
            tr2 @ TokenExchange # retry_steps
              \<lparr>url = modelEndpoint FALLBACK_MODEL, http_method = ''POST'',
              headers = [(''Content-Type'', ''application/json''),
                         (''Authorization'', ''Bearer '' @ s2)],
              body = JSON_stringify (request_body prompt)\<rparr> (Finite 600) j @
            [Fetch
              \<lparr>url = modelEndpoint FALLBACK_MODEL, http_method = ''POST'',
              headers = [(''Content-Type'', ''application/json''),
                         (''Authorization'', ''Bearer '' @ s2)],
              body = JSON_stringify (request_body prompt)\<rparr>]"
      using generate_fallback_attempt [OF _ _ _ _ _ b2, of req_body tr rq1 tr1 r1] by simp
  }
qed

theorem credential_precedence_witness:
  "build_request (both_env unreachable) PRIMARY_MODEL (JStr ''hi'') [] =
     (Inr (hi_request PRIMARY_MODEL), []) \<and>
   token_exchanges (snd (generate (both_env unreachable) hi_body [])) = 0 \<and>
   (\<exists>j more. snd (generate (both_env unreachable) hi_body []) =
      retry_steps (hi_request PRIMARY_MODEL) (Finite 600) j @ Fetch (hi_request PRIMARY_MODEL) # more) \<and>
   try_models (bare_env unreachable) (JStr ''hi'') [PRIMARY_MODEL, FALLBACK_MODEL] [] =
     (Inl (JsError ''no credentials''), [TokenExchange]) \<and>
   build_request (account_env busy_then_missing) PRIMARY_MODEL (JStr ''hi'') [] =
     (Inr (bearer_request PRIMARY_MODEL ''t0''), [TokenExchange]) \<and>
   (\<exists>j more. snd (generate (account_env busy_then_missing) hi_body []) =
      TokenExchange # retry_steps (bearer_request PRIMARY_MODEL ''t0'') (Finite 600) j @
      Fetch (bearer_request PRIMARY_MODEL ''t0'') # more) \<and>
   (\<exists>j. snd (generate (account_env busy_then_missing) hi_body []) =
      (TokenExchange # retry_steps (bearer_request PRIMARY_MODEL ''t0'') (Finite 600) 6 @
       [Fetch (bearer_request PRIMARY_MODEL ''t0'')]) @
      TokenExchange # retry_steps (bearer_request FALLBACK_MODEL ''t1'') (Finite 600) j @
      [Fetch (bearer_request FALLBACK_MODEL ''t1'')])"
proof -
  let ?both = "both_env unreachable"
  let ?bare = "bare_env unreachable"
  let ?acc = "account_env busy_then_missing"
  let ?rq1 = "bearer_request PRIMARY_MODEL ''t0''"
  let ?tr2 = "TokenExchange # retry_steps ?rq1 (Finite 600) 6 @ [Fetch ?rq1]"
  have p: "get_prop ''prompt'' hi_body = Inr (JStr ''hi'') \<and> truthy (JStr ''hi'')"
    by (simp add: hi_body_def)
  have k: "GOOGLE_API_KEY ?both = Some ''k'' \<and> ''k'' \<noteq> []"
    by (simp add: both_env_def)
  have with_key:
    "build_request ?both PRIMARY_MODEL (JStr ''hi'') [] = (Inr (hi_request PRIMARY_MODEL), []) \<and>
     token_exchanges (snd (generate ?both hi_body [])) = 0 \<and>
     (\<exists>j more. snd (generate ?both hi_body []) =
        retry_steps (hi_request PRIMARY_MODEL) (Finite 600) j @ Fetch (hi_request PRIMARY_MODEL) # more)"
    using credential_precedence [where env = ?both and k = "''k''" and m = PRIMARY_MODEL
        and prompt = "JStr ''hi''" and tr = "[]" and req_body = hi_body] k p
    by (simp add: hi_request_def hi_wire)
  have n0: "GOOGLE_API_KEY ?bare = None \<or> GOOGLE_API_KEY ?bare = Some []"
    by (simp add: bare_env_def)
  have e0: "getAccessToken ?bare (token_exchanges []) = Inl (JsError ''no credentials'')"
    by (simp add: bare_env_def key_env_def)
  have no_token:
    "try_models ?bare (JStr ''hi'') [PRIMARY_MODEL, FALLBACK_MODEL] [] =
       (Inl (JsError ''no credentials''), [TokenExchange])"
    using credential_precedence [where env = ?bare and m = PRIMARY_MODEL
        and prompt = "JStr ''hi''" and tr = "[]" and e = "JsError ''no credentials''"
        and rest = "[FALLBACK_MODEL]"] n0 e0
    by (simp del: try_models.simps)
  have n: "GOOGLE_API_KEY ?acc = None \<or> GOOGLE_API_KEY ?acc = Some []"
    by (simp add: account_env_def)
  have t0: "getAccessToken ?acc (token_exchanges []) = Inr (JObj [(''token'', JStr ''t0'')]) \<and>
      get_prop ''token'' (JObj [(''token'', JStr ''t0'')]) = Inr (JStr ''t0'') \<and>
      to_string (numberToString ?acc) (js_or (JStr ''t0'') (JObj [(''token'', JStr ''t0'')])) = Inr ''t0''"
    by (simp add: account_env_def js_or_def)
  have b1: "build_request ?acc PRIMARY_MODEL (JStr ''hi'') [] = (Inr ?rq1, [TokenExchange])"
    by (simp add: build_request_def service_account_request_def account_env_def js_or_def
        bearer_request_def hi_wire)
  have f1: "fetchWithRetry (fetch ?acc) ?rq1 7 [TokenExchange] = (Inr (Some busy), ?tr2)"
    by (simp add: fetchWithRetry_7_exhausted account_env_def busy_then_missing_def retry_worthy_def
        busy_def retryable_def)
  have nok: "\<not> ok busy"
    by (simp add: ok_def busy_def)
  have t1: "getAccessToken ?acc (token_exchanges ?tr2) = Inr (JObj [(''token'', JStr ''t1'')]) \<and>
      get_prop ''token'' (JObj [(''token'', JStr ''t1'')]) = Inr (JStr ''t1'') \<and>
      to_string (numberToString ?acc) (js_or (JStr ''t1'') (JObj [(''token'', JStr ''t1'')])) = Inr ''t1''"
    by (simp add: account_env_def js_or_def)
  have no_key:
    "build_request ?acc PRIMARY_MODEL (JStr ''hi'') [] = (Inr ?rq1, [TokenExchange]) \<and>
     (\<exists>j more. snd (generate ?acc hi_body []) =
        TokenExchange # retry_steps ?rq1 (Finite 600) j @ Fetch ?rq1 # more) \<and>
     (\<exists>j. snd (generate ?acc hi_body []) =
        ?tr2 @ TokenExchange # retry_steps (bearer_request FALLBACK_MODEL ''t1'') (Finite 600) j @
        [Fetch (bearer_request FALLBACK_MODEL ''t1'')])"
    using credential_precedence [where env = ?acc and m = PRIMARY_MODEL
        and prompt = "JStr ''hi''" and tr = "[]" and req_body = hi_body
        and tok = "JObj [(''token'', JStr ''t0'')]" and t = "JStr ''t0''" and s = "''t0''"
        and ?rq1.0 = ?rq1 and ?tr1.0 = "[TokenExchange]" and ?r1.0 = busy and ?tr2.0 = ?tr2
        and ?tok2.0 = "JObj [(''token'', JStr ''t1'')]" and ?t2.0 = "JStr ''t1''" and ?s2.0 = "''t1''"]
      n t0 p b1 f1 nok t1
    by (simp add: bearer_request_def hi_wire)
  from with_key no_token no_key show ?thesis
    by (simp del: try_models.simps)
qed

text \<open>
  Claim C10, as amended. The handler answers 400 \<^verbatim>\<open>Missing prompt\<close> exactly when the
  prompt is falsy, that is \<^verbatim>\<open>undefined\<close> (an absent field), \<^verbatim>\<open>null\<close>, \<^verbatim>\<open>false\<close>, 0,
  \<^verbatim>\<open>NaN\<close> or the empty string, and then does nothing else. Every truthy prompt, a string
  or not, passes: every HTTP call of the dispatch carries the body
  \<^verbatim>\<open>{contents: [{parts: [{text: prompt}]}]}\<close> as \<^verbatim>\<open>JSON.stringify\<close> writes it, with the
  prompt as it came when JSON can write it (no number that is not finite in it). With an
  API key, and with none when the token exchange succeeds, the first such call is
  issued.
\<close>

theorem prompt_validation:
  assumes "get_prop ''prompt'' req_body = Inr prompt"
  shows "(fst (generate env req_body tr) =
            Some (Reply 400 (JObj [(''error'', JStr ''Missing prompt'')])) \<longleftrightarrow>
          \<not> truthy prompt) \<and>
    ((\<not> truthy prompt) =
       (prompt \<in> {JUndefined, JNull, JBool False, JNum (Finite 0), JNum NaN, JStr []})) \<and>
    (\<not> truthy prompt \<longrightarrow> snd (generate env req_body tr) = tr) \<and>
    (truthy prompt \<longrightarrow>
       (\<exists>ext. snd (generate env req_body tr) = tr @ ext \<and>
          (\<forall>rq\<in>set (fetches_of ext). body rq = JObj [(''contents'', JArr [JObj [(''parts'', JArr [JObj [(''text'', JSON_stringify prompt)]])]])]))) \<and>
    (json_writable prompt \<longrightarrow> JSON_stringify prompt = prompt) \<and>
    (truthy prompt \<and> GOOGLE_API_KEY env = Some k \<and> k \<noteq> [] \<longrightarrow>
       (\<exists>more. fetches_of (snd (generate env req_body tr)) =
          fetches_of tr @
          \<lparr>url = modelEndpoint PRIMARY_MODEL @ ''?key='' @ k, http_method = ''POST'',
           headers = [(''Content-Type'', ''application/json'')],
           body = JObj [(''contents'', JArr [JObj [(''parts'', JArr [JObj [(''text'', JSON_stringify prompt)]])]])]\<rparr>
          # more)) \<and>
    (truthy prompt \<and> (GOOGLE_API_KEY env = None \<or> GOOGLE_API_KEY env = Some []) \<and>
     getAccessToken env (token_exchanges tr) = Inr tok \<and> get_prop ''token'' tok = Inr t \<and>
     to_string (numberToString env) (js_or t tok) = Inr s \<longrightarrow>
       (\<exists>more. fetches_of (snd (generate env req_body tr)) =
          fetches_of tr @
          \<lparr>url = modelEndpoint PRIMARY_MODEL, http_method = ''POST'',
           headers = [(''Content-Type'', ''application/json''),
                      (''Authorization'', ''Bearer '' @ s)],
           body = JObj [(''contents'', JArr [JObj [(''parts'', JArr [JObj [(''text'', JSON_stringify prompt)]])]])]\<rparr>
          # more))"
proof (intro conjI impI)
  show "fst (generate env req_body tr) =
            Some (Reply 400 (JObj [(''error'', JStr ''Missing prompt'')])) \<longleftrightarrow>
          \<not> truthy prompt"
  proof (cases "truthy prompt")
    case False
    with assms show ?thesis by (simp add: generate_def)
  next
    case True
    let ?res = "try_models env prompt [PRIMARY_MODEL, FALLBACK_MODEL] tr"
    have "fst (generate env req_body tr) \<noteq>
        Some (Reply 400 (JObj [(''error'', JStr ''Missing prompt'')]))"
    proof (cases "fst ?res")
      case (Inl e)
      then show ?thesis
        unfolding generate_prompt [OF assms True] by (simp add: case_prod_unfold)
    next
      case (Inr r)
      have "r \<noteq> Some (Reply 400 (JObj [(''error'', JStr ''Missing prompt'')]))"
        using try_models_reply_code [of env prompt "[PRIMARY_MODEL, FALLBACK_MODEL]" tr 400] Inr
        by auto
      with Inr show ?thesis
        unfolding generate_prompt [OF assms True] by (simp add: case_prod_unfold)
    qed
    with True show ?thesis by simp
  qed
  show "(\<not> truthy prompt) =
       (prompt \<in> {JUndefined, JNull, JBool False, JNum (Finite 0), JNum NaN, JStr []})"
    by (rule falsy_values)
  show "snd (generate env req_body tr) = tr" if "\<not> truthy prompt"
    using that assms by (simp add: generate_def)
  show "JSON_stringify prompt = prompt" if "json_writable prompt"
    using that by (rule JSON_stringify_writable)
  show "\<exists>ext. snd (generate env req_body tr) = tr @ ext \<and>
          (\<forall>rq\<in>set (fetches_of ext). body rq = JObj [(''contents'', JArr [JObj [(''parts'', JArr [JObj [(''text'', JSON_stringify prompt)]])]])])"
    if "truthy prompt"
    using try_models_extends [of env prompt "[PRIMARY_MODEL, FALLBACK_MODEL]" tr]
    unfolding generate_trace [OF assms that]
      JSON_stringify_request_body [OF truthy_defined [OF that]] .
  show "\<exists>more. fetches_of (snd (generate env req_body tr)) =
          fetches_of tr @
          \<lparr>url = modelEndpoint PRIMARY_MODEL @ ''?key='' @ k, http_method = ''POST'',
           headers = [(''Content-Type'', ''application/json'')],
           body = JObj [(''contents'', JArr [JObj [(''parts'', JArr [JObj [(''text'', JSON_stringify prompt)]])]])]\<rparr>
          # more"
    if "truthy prompt \<and> GOOGLE_API_KEY env = Some k \<and> k \<noteq> []"
  proof -
    from that have t: "truthy prompt" and key: "GOOGLE_API_KEY env = Some k" "k \<noteq> []"
      by simp_all
    show ?thesis
      using generate_first_call [OF assms t build_request_key [OF key], of tr]
      unfolding JSON_stringify_request_body [OF truthy_defined [OF t]] .
  qed
  show "\<exists>more. fetches_of (snd (generate env req_body tr)) =
          fetches_of tr @
          \<lparr>url = modelEndpoint PRIMARY_MODEL, http_method = ''POST'',
           headers = [(''Content-Type'', ''application/json''),
                      (''Authorization'', ''Bearer '' @ s)],
           body = JObj [(''contents'', JArr [JObj [(''parts'', JArr [JObj [(''text'', JSON_stringify prompt)]])]])]\<rparr>
          # more"
    if "truthy prompt \<and> (GOOGLE_API_KEY env = None \<or> GOOGLE_API_KEY env = Some []) \<and>
     getAccessToken env (token_exchanges tr) = Inr tok \<and> get_prop ''token'' tok = Inr t \<and>
     to_string (numberToString env) (js_or t tok) = Inr s"
  proof -
    from that have t: "truthy prompt"
      and nokey: "GOOGLE_API_KEY env = None \<or> GOOGLE_API_KEY env = Some []"
      and tok: "getAccessToken env (token_exchanges tr) = Inr tok" "get_prop ''token'' tok = Inr t"
        "to_string (numberToString env) (js_or t tok) = Inr s"
      by simp_all
    show ?thesis
      using generate_first_call [OF assms t build_request_bearer [OF nokey tok]]
      unfolding JSON_stringify_request_body [OF truthy_defined [OF t]] .
  qed
qed

theorem prompt_validation_witness:
  "fst (generate (key_env unreachable) (JObj [(''prompt'', JNum (Finite 0))]) []) =
     Some (Reply 400 (JObj [(''error'', JStr ''Missing prompt'')])) \<and>
   snd (generate (key_env unreachable) (JObj [(''prompt'', JNum (Finite 0))]) []) = [] \<and>
   fst (generate (key_env unreachable) (JObj [(''prompt'', JStr '' '')]) []) \<noteq>
     Some (Reply 400 (JObj [(''error'', JStr ''Missing prompt'')])) \<and>
   (\<exists>more. fetches_of (snd (generate (key_env unreachable) (JObj [(''prompt'', JStr '' '')]) [])) =
      \<lparr>url = modelEndpoint PRIMARY_MODEL @ ''?key=k'', http_method = ''POST'',
       headers = [(''Content-Type'', ''application/json'')],
       body = JObj [(''contents'', JArr [JObj [(''parts'', JArr [JObj [(''text'', JStr '' '')]])]])]\<rparr>
      # more) \<and>
   (\<exists>more. fetches_of (snd (generate (key_env unreachable) (JObj [(''prompt'', JObj [])]) [])) =
      \<lparr>url = modelEndpoint PRIMARY_MODEL @ ''?key=k'', http_method = ''POST'',
       headers = [(''Content-Type'', ''application/json'')],
       body = JObj [(''contents'', JArr [JObj [(''parts'', JArr [JObj [(''text'', JObj [])]])]])]\<rparr>
      # more) \<and>
   (\<exists>more. fetches_of (snd (generate (account_env unreachable) (JObj [(''prompt'', JStr '' '')]) [])) =
      \<lparr>url = modelEndpoint PRIMARY_MODEL, http_method = ''POST'',
       headers = [(''Content-Type'', ''application/json''), (''Authorization'', ''Bearer t0'')],
       body = JObj [(''contents'', JArr [JObj [(''parts'', JArr [JObj [(''text'', JStr '' '')]])]])]\<rparr>
      # more)"
proof -
  have zero: "get_prop ''prompt'' (JObj [(''prompt'', JNum (Finite 0))]) = Inr (JNum (Finite 0))"
    by simp
  have blank: "get_prop ''prompt'' (JObj [(''prompt'', JStr '' '')]) = Inr (JStr '' '')"
    by simp
  have obj: "get_prop ''prompt'' (JObj [(''prompt'', JObj [])]) = Inr (JObj [])"
    by simp
  have k: "GOOGLE_API_KEY (key_env unreachable) = Some ''k''"
    by (simp add: key_env_def)
  have n: "GOOGLE_API_KEY (account_env unreachable) = None"
    by (simp add: account_env_def)
  have t0: "getAccessToken (account_env unreachable) (token_exchanges []) =
        Inr (JObj [(''token'', JStr ''t0'')]) \<and>
      get_prop ''token'' (JObj [(''token'', JStr ''t0'')]) = Inr (JStr ''t0'') \<and>
      to_string (numberToString (account_env unreachable))
        (js_or (JStr ''t0'') (JObj [(''token'', JStr ''t0'')])) = Inr ''t0''"
    by (simp add: account_env_def js_or_def)
  show ?thesis
    using prompt_validation [OF zero, of "key_env unreachable" "[]" "''k''"]
      prompt_validation [OF blank, of "key_env unreachable" "[]" "''k''"]
      prompt_validation [OF obj, of "key_env unreachable" "[]" "''k''"]
      prompt_validation [OF blank, where env = "account_env unreachable" and tr = "[]"
        and tok = "JObj [(''token'', JStr ''t0'')]" and t = "JStr ''t0''" and s = "''t0''"]
      k n t0
    by simp
qed

text \<open>
  Claim C10, as stated, fails. The literal \<^verbatim>\<open>1e400\<close> in the request body parses to
  \<^verbatim>\<open>Infinity\<close>, which is truthy and passes validation, and \<^verbatim>\<open>JSON.stringify\<close> writes it
  \<^verbatim>\<open>null\<close>: the text field of every outbound body is \<^verbatim>\<open>null\<close>, not the prompt.
\<close>

theorem overflowing_prompt_counterexample:
  "truthy (JNum PosInfinity) \<and>
   fst (generate (key_env unreachable) (JObj [(''prompt'', JNum PosInfinity)]) []) \<noteq>
     Some (Reply 400 (JObj [(''error'', JStr ''Missing prompt'')])) \<and>
   map body (fetches_of (snd (generate (key_env unreachable) (JObj [(''prompt'', JNum PosInfinity)]) []))) =
     replicate 7 (JObj [(''contents'', JArr [JObj [(''parts'', JArr [JObj [(''text'', JNull)]])]])]) \<and>
   JObj [(''contents'', JArr [JObj [(''parts'', JArr [JObj [(''text'', JNull)]])]])] \<noteq>
     JObj [(''contents'', JArr [JObj [(''parts'', JArr [JObj [(''text'', JNum PosInfinity)]])]])]"
proof -
  let ?rq = "\<lparr>url = modelEndpoint PRIMARY_MODEL @ ''?key=k'', http_method = ''POST'',
      headers = [(''Content-Type'', ''application/json'')],
      body = JObj [(''contents'', JArr [JObj [(''parts'', JArr [JObj [(''text'', JNull)]])]])]\<rparr>"
  let ?env = "key_env unreachable"
  have b: "build_request ?env PRIMARY_MODEL (JNum PosInfinity) [] = (Inr ?rq, [])"
    by (simp add: build_request_def key_env_def request_body_def)
  have f: "fetchWithRetry (fetch ?env) ?rq 7 [] =
      (Inl (JsError ''ECONNRESET''), retry_steps ?rq (Finite 600) 6 @ [Fetch ?rq])"
    by (simp add: fetchWithRetry_7_exhausted key_env_def unreachable_def retry_worthy_def)
  have "try_models ?env (JNum PosInfinity) [PRIMARY_MODEL, FALLBACK_MODEL] [] =
      (Inl (JsError ''ECONNRESET''), retry_steps ?rq (Finite 600) 6 @ [Fetch ?rq])"
    by (simp add: b f)
  then have "generate ?env (JObj [(''prompt'', JNum PosInfinity)]) [] =
      (Some (Reply 500 (JObj [(''error'', JStr ''internal error''),
                              (''details'', JStr ''ECONNRESET'')])),
       retry_steps ?rq (Finite 600) 6 @ [Fetch ?rq])"
    by (simp add: generate_def del: try_models.simps)
  then show ?thesis
    by (simp add: eval_nat_numeral)
qed

end
